theory Spec2Isabelle
  imports Main
begin

section \<open>Python values handled by the ingestion scripts\<close>

text \<open>
  The scripts under \<^verbatim>\<open>backend/src/data/catalogs\<close> work on what \<^verbatim>\<open>json.load\<close>,
  \<^verbatim>\<open>csv.DictReader\<close> and \<^verbatim>\<open>pdfplumber\<close> hand them. A parsed JSON document is a
  Python value: \<^verbatim>\<open>None\<close>, a bool, a number, a string, a list or a dict with string
  keys. A dict is kept as the list of its items in insertion order (keys distinct, as
  \<^verbatim>\<open>json.load\<close> leaves them). Numbers are integers here: a float takes the same
  branch as an int in every operation below (no \<^verbatim>\<open>len\<close>, no \<^verbatim>\<open>.get\<close>, hashable,
  printed in ASCII).

  A Python \<^verbatim>\<open>str\<close> is a sequence of Unicode code points, and \<^verbatim>\<open>json.load\<close> accepts any
  of them, lone surrogates included (\<^verbatim>\<open>"\ud800"\<close>). A payload string is therefore the
  list of its code points; \<open>ustr\<close> writes one from its ASCII text.
\<close>

type_synonym ustring = "int list"

definition ustr :: "string \<Rightarrow> ustring" where
  "ustr s = map of_char s"

datatype pyval =
    PNone
  | PBool bool
  | PInt int
  | PStr ustring
  | PList "pyval list"
  | PDict "(ustring \<times> pyval) list"

text \<open>
  The exceptions the scripts can meet. \<open>LoadError msg\<close> stands for whatever
  \<^verbatim>\<open>open\<close>, \<^verbatim>\<open>json.load\<close>, \<^verbatim>\<open>csv.DictReader\<close> or \<^verbatim>\<open>pdfplumber.open\<close> raise on a file
  they cannot read (\<^verbatim>\<open>JSONDecodeError\<close>, \<^verbatim>\<open>UnicodeDecodeError\<close>, \<^verbatim>\<open>OSError\<close>, ...);
  every handler in the scripts is \<^verbatim>\<open>except Exception\<close> and keeps only \<^verbatim>\<open>str(e)\<close>.
  \<open>UnicodeEncodeError\<close> is what \<^verbatim>\<open>print\<close> raises on a text the output stream cannot
  encode.
\<close>

datatype py_error =
    LoadError string | AttributeError | TypeError | IndexError | UnicodeEncodeError

text \<open>Truthiness, as \<^verbatim>\<open>or\<close> and \<^verbatim>\<open>if\<close> test it.\<close>

fun truthy :: "pyval \<Rightarrow> bool" where
  "truthy PNone = False"
| "truthy (PBool b) = b"
| "truthy (PInt n) = (n \<noteq> 0)"
| "truthy (PStr s) = (s \<noteq> [])"
| "truthy (PList xs) = (xs \<noteq> [])"
| "truthy (PDict kvs) = (kvs \<noteq> [])"

text \<open>\<^verbatim>\<open>a or b\<close>: the first operand when it is truthy, the second otherwise.\<close>

definition py_or :: "pyval \<Rightarrow> pyval \<Rightarrow> pyval" where
  "py_or a b = (if truthy a then a else b)"

text \<open>\<^verbatim>\<open>len(v)\<close>: defined on strings, lists and dicts, \<^verbatim>\<open>TypeError\<close> elsewhere.\<close>

fun py_len :: "pyval \<Rightarrow> py_error + nat" where
  "py_len (PStr s) = Inr (length s)"
| "py_len (PList xs) = Inr (length xs)"
| "py_len (PDict kvs) = Inr (length kvs)"
| "py_len _ = Inl TypeError"

text \<open>
  \<^verbatim>\<open>for x in v\<close>: the characters of a string, the elements of a list, the keys of a
  dict. It is only reached after \<^verbatim>\<open>len(v)\<close> succeeded.
\<close>

fun py_iter :: "pyval \<Rightarrow> pyval list" where
  "py_iter (PStr s) = map (\<lambda>c. PStr [c]) s"
| "py_iter (PList xs) = xs"
| "py_iter (PDict kvs) = map (\<lambda>kv. PStr (fst kv)) kvs"
| "py_iter _ = []"

text \<open>\<^verbatim>\<open>v.get(key, default)\<close>: only a dict has \<^verbatim>\<open>get\<close>.\<close>

fun py_get :: "pyval \<Rightarrow> ustring \<Rightarrow> pyval \<Rightarrow> py_error + pyval" where
  "py_get (PDict kvs) k d = Inr (case map_of kvs k of Some v \<Rightarrow> v | None \<Rightarrow> d)"
| "py_get _ k d = Inl AttributeError"

text \<open>Lists and dicts are unhashable: using one as a dict key raises \<^verbatim>\<open>TypeError\<close>.\<close>

fun hashable :: "pyval \<Rightarrow> bool" where
  "hashable (PList xs) = False"
| "hashable (PDict kvs) = False"
| "hashable _ = True"

text \<open>
  Dict keys compare with \<^verbatim>\<open>==\<close>, under which \<^verbatim>\<open>True == 1\<close> and \<^verbatim>\<open>False == 0\<close>;
  \<open>dedup_key\<close> maps a key to the representative it is compared by.
\<close>

fun dedup_key :: "pyval \<Rightarrow> pyval" where
  "dedup_key (PBool b) = PInt (if b then 1 else 0)"
| "dedup_key v = v"

subsection \<open>\<^verbatim>\<open>print\<close>\<close>

text \<open>
  \<^verbatim>\<open>print\<close> encodes its text for the output stream and raises \<^verbatim>\<open>UnicodeEncodeError\<close>
  on a character the stream cannot encode. The scripts print check marks, circles and
  emoji from their first statement on, so they run only on a stream that encodes all
  of Unicode; the stream is taken to be the default one of such a setting, strict
  UTF-8, which encodes every code point but the surrogates \<^verbatim>\<open>U+D800\<close> to \<^verbatim>\<open>U+DFFF\<close>.
\<close>

definition surrogate :: "int \<Rightarrow> bool" where
  "surrogate c = (55296 \<le> c \<and> c \<le> 57343)"

definition print_ok :: "ustring \<Rightarrow> bool" where
  "print_ok text = list_all (\<lambda>c. \<not> surrogate c) text"

definition py_print :: "ustring \<Rightarrow> py_error + unit" where
  "py_print text = (if print_ok text then Inr () else Inl UnicodeEncodeError)"

text \<open>
  Whether \<^verbatim>\<open>str(v)\<close>, as an f-string formats \<open>v\<close>, can be printed. A string is printed
  as it is. \<^verbatim>\<open>None\<close>, booleans and numbers are written in ASCII. A list or a dict is
  written by \<^verbatim>\<open>repr\<close>, which escapes every surrogate inside it
  (\<^verbatim>\<open>str(['\ud800'])\<close> is the ASCII text \<^verbatim>\<open>['\ud800']\<close>).
\<close>

fun str_printable :: "pyval \<Rightarrow> bool" where
  "str_printable (PStr s) = print_ok s"
| "str_printable v = True"

text \<open>\<^verbatim>\<open>print(f"<label>{v}")\<close>.\<close>

definition py_print_value :: "ustring \<Rightarrow> pyval \<Rightarrow> py_error + unit" where
  "py_print_value label v =
     (if print_ok label \<and> str_printable v then Inr () else Inl UnicodeEncodeError)"

section \<open>\<^verbatim>\<open>CatalogIngestionTester\<close> (test\_multiformat\_ingestion.py)\<close>

text \<open>One entry of \<^verbatim>\<open>self.results[fmt]['products']\<close>.\<close>

record product =
  p_id :: pyval
  p_name :: pyval
  p_vendor :: pyval
  p_source :: string
  p_format :: string

text \<open>\<^verbatim>\<open>self.results[fmt]\<close>: the running count, the products and the per-file errors.\<close>

record fmt_results =
  r_count :: nat
  r_products :: "product list"
  r_errors :: "(string \<times> py_error) list"

text \<open>
  The tester's state. \<open>dedup_map\<close> is the dict \<^verbatim>\<open>self.dedup_map\<close> as its items in
  insertion order: product id, then the sources it was seen in.
\<close>

record tester =
  res_json :: fmt_results
  res_csv :: fmt_results
  res_pdf :: fmt_results
  dedup_map :: "(pyval \<times> string list) list"

definition init_results :: fmt_results where
  "init_results = \<lparr>r_count = 0, r_products = [], r_errors = []\<rparr>"

definition init_tester :: tester where
  "init_tester = \<lparr>res_json = init_results, res_csv = init_results,
                   res_pdf = init_results, dedup_map = []\<rparr>"

text \<open>
  A file as the loops see it: its full path, its name, and what reading it gave. The
  handlers print the file's name and the exception's message outside the \<^verbatim>\<open>try\<close>, where
  an unprintable one would end the whole run; paths, names and messages are therefore
  taken from the printable texts, written as 8-bit strings.
\<close>

record 'a src_file =
  f_path :: string
  f_name :: string
  f_content :: "py_error + 'a"

subsection \<open>\<^verbatim>\<open>_add_dedup\<close>\<close>

definition dmap_contains :: "(pyval \<times> string list) list \<Rightarrow> pyval \<Rightarrow> bool" where
  "dmap_contains m k = (dedup_key k \<in> set (map (\<lambda>e. dedup_key (fst e)) m))"

definition dmap_append :: "(pyval \<times> string list) list \<Rightarrow> pyval \<Rightarrow> string \<Rightarrow>
    (pyval \<times> string list) list" where
  "dmap_append m k s =
     map (\<lambda>e. if dedup_key (fst e) = dedup_key k then (fst e, snd e @ [s]) else e) m"

text \<open>
  \<^verbatim>\<open>if product_id not in self.dedup_map: self.dedup_map[product_id] = []\<close> and then
  \<^verbatim>\<open>self.dedup_map[product_id].append(source)\<close>. The membership test hashes the id
  and raises on an unhashable one, before anything is stored.
\<close>

definition add_dedup_map :: "(pyval \<times> string list) list \<Rightarrow> pyval \<Rightarrow> string \<Rightarrow>
    (pyval \<times> string list) list" where
  "add_dedup_map m k s =
     dmap_append (if dmap_contains m k then m else m @ [(k, [])]) k s"

definition add_dedup :: "tester \<Rightarrow> pyval \<Rightarrow> string \<Rightarrow> py_error + tester" where
  "add_dedup st product_id source =
     (if hashable product_id
      then Inr (st\<lparr>dedup_map := add_dedup_map (dedup_map st) product_id source\<rparr>)
      else Inl TypeError)"

text \<open>\<^verbatim>\<open>self.dedup_map.get(k)\<close>, for reading the map back.\<close>

definition dmap_lookup :: "(pyval \<times> string list) list \<Rightarrow> pyval \<Rightarrow> string list option" where
  "dmap_lookup m k =
     (case filter (\<lambda>e. dedup_key (fst e) = dedup_key k) m of
        [] \<Rightarrow> None
      | e # _ \<Rightarrow> Some (snd e))"

subsection \<open>\<^verbatim>\<open>test_json_catalogs\<close>\<close>

definition json_add_count :: "tester \<Rightarrow> nat \<Rightarrow> tester" where
  "json_add_count st n = st\<lparr>res_json := (res_json st)\<lparr>r_count := r_count (res_json st) + n\<rparr>\<rparr>"

definition json_add_product :: "tester \<Rightarrow> product \<Rightarrow> tester" where
  "json_add_product st p =
     st\<lparr>res_json := (res_json st)\<lparr>r_products := r_products (res_json st) @ [p]\<rparr>\<rparr>"

definition json_add_error :: "tester \<Rightarrow> string \<Rightarrow> py_error \<Rightarrow> tester" where
  "json_add_error st path e =
     st\<lparr>res_json := (res_json st)\<lparr>r_errors := r_errors (res_json st) @ [(path, e)]\<rparr>\<rparr>"

text \<open>
  The body of \<^verbatim>\<open>for product in products\<close> up to the \<^verbatim>\<open>append\<close>: the id is
  \<^verbatim>\<open>product.get('id', product.get('name', 'unknown'))\<close>, name and vendor default to
  \<^verbatim>\<open>'N/A'\<close>. A product that is not a dict has no \<^verbatim>\<open>get\<close>.
\<close>

definition json_product :: "string \<Rightarrow> pyval \<Rightarrow> py_error + product" where
  "json_product fname p =
     (case py_get p (ustr ''name'') (PStr (ustr ''unknown'')) of
        Inl e \<Rightarrow> Inl e
      | Inr dflt \<Rightarrow>
     (case py_get p (ustr ''id'') dflt of
        Inl e \<Rightarrow> Inl e
      | Inr product_id \<Rightarrow>
     (case py_get p (ustr ''name'') (PStr (ustr ''N/A'')) of
        Inl e \<Rightarrow> Inl e
      | Inr name \<Rightarrow>
     (case py_get p (ustr ''vendor'') (PStr (ustr ''N/A'')) of
        Inl e \<Rightarrow> Inl e
      | Inr vendor \<Rightarrow>
          Inr \<lparr>p_id = product_id, p_name = name, p_vendor = vendor,
               p_source = fname, p_format = ''JSON''\<rparr>))))"

text \<open>
  The loop over the products of one file. It returns the state reached and the exception
  that ended it, if any: what was appended before an exception stays appended.
\<close>

fun json_loop :: "string \<Rightarrow> pyval list \<Rightarrow> tester \<Rightarrow> tester \<times> py_error option" where
  "json_loop fname [] st = (st, None)"
| "json_loop fname (p # ps) st =
     (case json_product fname p of
        Inl e \<Rightarrow> (st, Some e)
      | Inr pr \<Rightarrow>
          (case add_dedup (json_add_product st pr) (p_id pr) fname of
             Inl e \<Rightarrow> (json_add_product st pr, Some e)
           | Inr st' \<Rightarrow> json_loop fname ps st'))"

text \<open>
  The three \<^verbatim>\<open>print\<close> calls that end the \<^verbatim>\<open>try\<close> body: the status mark (a check mark
  when the file has products, a circle otherwise) with the file's name, the catalog's
  name, and the number of products.
\<close>

definition json_prints :: "string \<Rightarrow> pyval \<Rightarrow> nat \<Rightarrow> py_error + unit" where
  "json_prints fname catalog_name product_count =
     (let status = (if product_count > 0 then [10003] else [9675])
      in case py_print (status @ ustr '' '' @ ustr fname) of
           Inl e \<Rightarrow> Inl e
         | Inr _ \<Rightarrow>
        (case py_print_value (ustr ''   Catalog: '') catalog_name of
           Inl e \<Rightarrow> Inl e
         | Inr _ \<Rightarrow> py_print_value (ustr ''   Products: '') (PInt (int product_count))))"

text \<open>
  One iteration of \<^verbatim>\<open>for json_file in json_files[:10]\<close>: the \<^verbatim>\<open>try\<close> body, and the
  handler that records \<^verbatim>\<open>{'file': str(json_file), 'error': str(e)}\<close>. The count is
  raised by \<^verbatim>\<open>len(products)\<close> before the loop over the products starts, and the
  prints come after the loop, still inside the \<^verbatim>\<open>try\<close>.
\<close>

definition test_json_file :: "tester \<Rightarrow> pyval src_file \<Rightarrow> tester" where
  "test_json_file st f =
     (case f_content f of
        Inl e \<Rightarrow> json_add_error st (f_path f) e
      | Inr data \<Rightarrow>
     (case py_get data (ustr ''catalog_name'') (PStr (ustr (f_name f))) of
        Inl e \<Rightarrow> json_add_error st (f_path f) e
      | Inr catalog_name \<Rightarrow>
     (case py_get data (ustr ''products'') (PList []) of
        Inl e \<Rightarrow> json_add_error st (f_path f) e
      | Inr products \<Rightarrow>
     (case py_len products of
        Inl e \<Rightarrow> json_add_error st (f_path f) e
      | Inr product_count \<Rightarrow>
          (case json_loop (f_name f) (py_iter products) (json_add_count st product_count) of
             (st', Some e) \<Rightarrow> json_add_error st' (f_path f) e
           | (st', None) \<Rightarrow>
               (case json_prints (f_name f) catalog_name product_count of
                  Inl e \<Rightarrow> json_add_error st' (f_path f) e
                | Inr _ \<Rightarrow> st'))))))"

text \<open>The whole method: only the first ten files found are read.\<close>

definition test_json_catalogs :: "tester \<Rightarrow> pyval src_file list \<Rightarrow> tester" where
  "test_json_catalogs st json_files = foldl test_json_file st (take 10 json_files)"

text \<open>
  \<^verbatim>\<open>measure_json_extraction\<close> (test\_extraction\_time.py) reads the same payload: it
  takes \<^verbatim>\<open>len(data.get('products', []))\<close> and then reads \<^verbatim>\<open>name\<close>, \<^verbatim>\<open>vendor\<close> and
  \<^verbatim>\<open>category\<close> of every product with empty-string defaults. Nothing there catches an
  exception: the result is the count, or the exception that ends the function.
\<close>

fun measure_json_loop :: "pyval list \<Rightarrow> py_error option" where
  "measure_json_loop [] = None"
| "measure_json_loop (product # products) =
     (case py_get product (ustr ''name'') (PStr []) of
        Inl e \<Rightarrow> Some e
      | Inr name \<Rightarrow>
     (case py_get product (ustr ''vendor'') (PStr []) of
        Inl e \<Rightarrow> Some e
      | Inr vendor \<Rightarrow>
     (case py_get product (ustr ''category'') (PStr []) of
        Inl e \<Rightarrow> Some e
      | Inr category \<Rightarrow> measure_json_loop products)))"

definition measure_json_count :: "pyval \<Rightarrow> py_error + nat" where
  "measure_json_count data =
     (case py_get data (ustr ''products'') (PList []) of
        Inl e \<Rightarrow> Inl e
      | Inr products \<Rightarrow>
     (case py_len products of
        Inl e \<Rightarrow> Inl e
      | Inr product_count \<Rightarrow>
          (case measure_json_loop (py_iter products) of
             Some e \<Rightarrow> Inl e
           | None \<Rightarrow> Inr product_count)))"

subsection \<open>\<^verbatim>\<open>csv.DictReader\<close>\<close>

text \<open>
  The standard library's reader, over the rows \<^verbatim>\<open>csv.reader\<close> tokenises (a blank line
  is the empty row). The first row gives the field names; blank rows after it are
  dropped; a row becomes \<^verbatim>\<open>dict(zip(fieldnames, row))\<close>, a longer row keeps its extra
  cells as a list under the key \<^verbatim>\<open>None\<close> (\<^verbatim>\<open>restkey\<close>), a shorter one gets \<^verbatim>\<open>None\<close>
  (\<^verbatim>\<open>restval\<close>) for the missing fields. The dict is the list of its assignments in the
  order they are made; a lookup takes the last one made for the key.
\<close>

type_synonym csv_row = "(ustring option \<times> pyval) list"

definition row_get :: "csv_row \<Rightarrow> ustring \<Rightarrow> pyval \<Rightarrow> pyval" where
  "row_get d k dflt = (case map_of (rev d) (Some k) of Some v \<Rightarrow> v | None \<Rightarrow> dflt)"

definition dict_row :: "ustring list \<Rightarrow> ustring list \<Rightarrow> csv_row" where
  "dict_row fieldnames row =
     (let d = map (\<lambda>kv. (Some (fst kv), PStr (snd kv))) (zip fieldnames row);
          lf = length fieldnames;
          lr = length row
      in if lf < lr then d @ [(None, PList (map PStr (drop lf row)))]
         else if lf > lr then d @ map (\<lambda>k. (Some k, PNone)) (drop lr fieldnames)
         else d)"

definition dict_reader :: "ustring list list \<Rightarrow> csv_row list" where
  "dict_reader lines =
     (case lines of
        [] \<Rightarrow> []
      | fieldnames # rest \<Rightarrow> map (dict_row fieldnames) (filter (\<lambda>r. r \<noteq> []) rest))"

subsection \<open>\<^verbatim>\<open>test_csv_catalogs\<close>\<close>

definition csv_add_count :: "tester \<Rightarrow> nat \<Rightarrow> tester" where
  "csv_add_count st n = st\<lparr>res_csv := (res_csv st)\<lparr>r_count := r_count (res_csv st) + n\<rparr>\<rparr>"

definition csv_add_product :: "tester \<Rightarrow> product \<Rightarrow> tester" where
  "csv_add_product st p =
     st\<lparr>res_csv := (res_csv st)\<lparr>r_products := r_products (res_csv st) @ [p]\<rparr>\<rparr>"

definition csv_add_error :: "tester \<Rightarrow> string \<Rightarrow> py_error \<Rightarrow> tester" where
  "csv_add_error st path e =
     st\<lparr>res_csv := (res_csv st)\<lparr>r_errors := r_errors (res_csv st) @ [(path, e)]\<rparr>\<rparr>"

text \<open>
  \<^verbatim>\<open>row.get('Product Name') or row.get('Product') or row.get('id', 'unknown')\<close>; the name
  is the id.
\<close>

definition csv_product_id :: "csv_row \<Rightarrow> pyval" where
  "csv_product_id row =
     py_or (py_or (row_get row (ustr ''Product Name'') PNone) (row_get row (ustr ''Product'') PNone))
           (row_get row (ustr ''id'') (PStr (ustr ''unknown'')))"

text \<open>\<^verbatim>\<open>row.get('Vendor') or row.get('Provider') or 'N/A'\<close>.\<close>

definition csv_vendor :: "csv_row \<Rightarrow> pyval" where
  "csv_vendor row =
     py_or (py_or (row_get row (ustr ''Vendor'') PNone) (row_get row (ustr ''Provider'') PNone))
           (PStr (ustr ''N/A''))"

definition csv_product :: "string \<Rightarrow> csv_row \<Rightarrow> product" where
  "csv_product fname row =
     \<lparr>p_id = csv_product_id row, p_name = csv_product_id row, p_vendor = csv_vendor row,
      p_source = fname, p_format = ''CSV''\<rparr>"

fun csv_loop :: "string \<Rightarrow> csv_row list \<Rightarrow> tester \<Rightarrow> tester \<times> py_error option" where
  "csv_loop fname [] st = (st, None)"
| "csv_loop fname (row # rows) st =
     (let pr = csv_product fname row
      in case add_dedup (csv_add_product st pr) (p_id pr) fname of
           Inl e \<Rightarrow> (csv_add_product st pr, Some e)
         | Inr st' \<Rightarrow> csv_loop fname rows st')"

text \<open>
  The two \<^verbatim>\<open>print\<close> calls that end the \<^verbatim>\<open>try\<close> body: a check mark with the file's
  name, and the number of products.
\<close>

definition csv_prints :: "string \<Rightarrow> nat \<Rightarrow> py_error + unit" where
  "csv_prints fname product_count =
     (case py_print ([10003] @ ustr '' '' @ ustr fname) of
        Inl e \<Rightarrow> Inl e
      | Inr _ \<Rightarrow> py_print_value (ustr ''   Products: '') (PInt (int product_count)))"

text \<open>
  One iteration of \<^verbatim>\<open>for csv_file in csv_files\<close>. The file's content is the list of
  tokenised rows, or the exception that opening or tokenising raised.
\<close>

definition test_csv_file :: "tester \<Rightarrow> ustring list list src_file \<Rightarrow> tester" where
  "test_csv_file st f =
     (case f_content f of
        Inl e \<Rightarrow> csv_add_error st (f_path f) e
      | Inr lines \<Rightarrow>
          (let rows = dict_reader lines
           in case csv_loop (f_name f) rows (csv_add_count st (length rows)) of
                (st', Some e) \<Rightarrow> csv_add_error st' (f_path f) e
              | (st', None) \<Rightarrow>
                  (case csv_prints (f_name f) (length rows) of
                     Inl e \<Rightarrow> csv_add_error st' (f_path f) e
                   | Inr _ \<Rightarrow> st')))"

text \<open>The method returns at once when the \<^verbatim>\<open>csv\<close> directory does not exist.\<close>

fun test_csv_catalogs :: "tester \<Rightarrow> ustring list list src_file list option \<Rightarrow> tester" where
  "test_csv_catalogs st None = st"
| "test_csv_catalogs st (Some csv_files) = foldl test_csv_file st csv_files"

text \<open>
  \<^verbatim>\<open>measure_csv_extraction\<close> (test\_extraction\_time.py) resolves the same fields as
  \<^verbatim>\<open>row.get('Product Name') or row.get('Product') or row.get('Service', '')\<close> and
  \<^verbatim>\<open>row.get('Vendor') or row.get('Provider', '')\<close>, and counts one product per row.
\<close>

definition measure_csv_name :: "csv_row \<Rightarrow> pyval" where
  "measure_csv_name row =
     py_or (py_or (row_get row (ustr ''Product Name'') PNone) (row_get row (ustr ''Product'') PNone))
           (row_get row (ustr ''Service'') (PStr []))"

definition measure_csv_vendor :: "csv_row \<Rightarrow> pyval" where
  "measure_csv_vendor row =
     py_or (row_get row (ustr ''Vendor'') PNone) (row_get row (ustr ''Provider'') (PStr []))"

definition measure_csv_count :: "ustring list list \<Rightarrow> nat" where
  "measure_csv_count lines = foldl (\<lambda>product_count row. product_count + 1) 0 (dict_reader lines)"

subsection \<open>\<^verbatim>\<open>test_pdf_catalogs\<close>\<close>

text \<open>
  What \<^verbatim>\<open>pdfplumber\<close> extracts from a page: its text (or \<^verbatim>\<open>None\<close>) and its tables.
  A table is a list of rows, a row a list of cells, and a cell is a string or \<^verbatim>\<open>None\<close>
  (an empty cell of the drawn table).
\<close>

type_synonym cell = "ustring option"

record page =
  pg_text :: "ustring option"
  pg_tables :: "cell list list list"

text \<open>
  \<^verbatim>\<open>str.strip()\<close>: leading and trailing whitespace removed. The whitespace characters
  of \<^verbatim>\<open>str\<close> are the code points \<^verbatim>\<open>U+0009\<close> to \<^verbatim>\<open>U+000D\<close>, \<^verbatim>\<open>U+001C\<close> to \<^verbatim>\<open>U+0020\<close>,
  \<^verbatim>\<open>U+0085\<close>, \<^verbatim>\<open>U+00A0\<close>, \<^verbatim>\<open>U+1680\<close>, \<^verbatim>\<open>U+2000\<close> to \<^verbatim>\<open>U+200A\<close>, \<^verbatim>\<open>U+2028\<close>,
  \<^verbatim>\<open>U+2029\<close>, \<^verbatim>\<open>U+202F\<close>, \<^verbatim>\<open>U+205F\<close> and \<^verbatim>\<open>U+3000\<close>.
\<close>

definition is_space :: "int \<Rightarrow> bool" where
  "is_space c =
     ((9 \<le> c \<and> c \<le> 13) \<or> (28 \<le> c \<and> c \<le> 32) \<or> c = 133 \<or> c = 160 \<or> c = 5760
      \<or> (8192 \<le> c \<and> c \<le> 8202) \<or> c = 8232 \<or> c = 8233 \<or> c = 8239 \<or> c = 8287
      \<or> c = 12288)"

definition py_strip :: "ustring \<Rightarrow> ustring" where
  "py_strip s = rev (dropWhile is_space (rev (dropWhile is_space s)))"

text \<open>\<^verbatim>\<open>tables.extend(page_tables)\<close> for every page whose list of tables is not empty.\<close>

definition collect_tables :: "page list \<Rightarrow> cell list list list" where
  "collect_tables pages =
     foldl (\<lambda>tables pg. if pg_tables pg \<noteq> [] then tables @ pg_tables pg else tables) [] pages"

text \<open>The guard \<^verbatim>\<open>len(row) > 0 and row[0]\<close>.\<close>

definition row_has_first_cell :: "cell list \<Rightarrow> bool" where
  "row_has_first_cell row =
     (case row of [] \<Rightarrow> False | c # _ \<Rightarrow> (case c of None \<Rightarrow> False | Some s \<Rightarrow> s \<noteq> []))"

definition pdf_add_count :: "tester \<Rightarrow> nat \<Rightarrow> tester" where
  "pdf_add_count st n = st\<lparr>res_pdf := (res_pdf st)\<lparr>r_count := r_count (res_pdf st) + n\<rparr>\<rparr>"

definition pdf_add_product :: "tester \<Rightarrow> product \<Rightarrow> tester" where
  "pdf_add_product st p =
     st\<lparr>res_pdf := (res_pdf st)\<lparr>r_products := r_products (res_pdf st) @ [p]\<rparr>\<rparr>"

definition pdf_add_error :: "tester \<Rightarrow> string \<Rightarrow> py_error \<Rightarrow> tester" where
  "pdf_add_error st path e =
     st\<lparr>res_pdf := (res_pdf st)\<lparr>r_errors := r_errors (res_pdf st) @ [(path, e)]\<rparr>\<rparr>"

text \<open>
  The body under the guard, for a row that passed it: \<^verbatim>\<open>row[0].strip()\<close> is id and
  name, and the vendor is \<^verbatim>\<open>row[1].strip() if len(row) > 1 else 'N/A'\<close>, where
  \<^verbatim>\<open>None\<close> has no \<^verbatim>\<open>strip\<close>.
\<close>

definition pdf_product :: "string \<Rightarrow> cell list \<Rightarrow> py_error + product" where
  "pdf_product fname row =
     (case row of
        [] \<Rightarrow> Inl IndexError
      | c0 # rest \<Rightarrow>
     (case c0 of
        None \<Rightarrow> Inl AttributeError
      | Some s0 \<Rightarrow>
     (case rest of
        [] \<Rightarrow> Inr \<lparr>p_id = PStr (py_strip s0), p_name = PStr (py_strip s0),
                   p_vendor = PStr (ustr ''N/A''), p_source = fname, p_format = ''PDF''\<rparr>
      | c1 # _ \<Rightarrow>
     (case c1 of
        None \<Rightarrow> Inl AttributeError
      | Some s1 \<Rightarrow>
          Inr \<lparr>p_id = PStr (py_strip s0), p_name = PStr (py_strip s0),
               p_vendor = PStr (py_strip s1), p_source = fname, p_format = ''PDF''\<rparr>))))"

text \<open>
  \<^verbatim>\<open>for row in table[1:]\<close>, threading the state and the local \<^verbatim>\<open>product_count\<close>; the
  third component is the exception that ended the loop, if any.
\<close>

fun pdf_rows_loop :: "string \<Rightarrow> cell list list \<Rightarrow> tester \<times> nat \<Rightarrow>
    tester \<times> nat \<times> py_error option" where
  "pdf_rows_loop fname [] (st, n) = (st, n, None)"
| "pdf_rows_loop fname (row # rows) (st, n) =
     (if row_has_first_cell row
      then (case pdf_product fname row of
              Inl e \<Rightarrow> (st, n, Some e)
            | Inr pr \<Rightarrow>
                (case add_dedup (pdf_add_product st pr) (p_id pr) fname of
                   Inl e \<Rightarrow> (pdf_add_product st pr, n, Some e)
                 | Inr st' \<Rightarrow> pdf_rows_loop fname rows (st', n + 1)))
      else pdf_rows_loop fname rows (st, n))"

text \<open>\<^verbatim>\<open>for table in tables: if len(table) > 1: ...\<close>; row 0 is \<^verbatim>\<open>headers\<close>.\<close>

fun pdf_tables_loop :: "string \<Rightarrow> cell list list list \<Rightarrow> tester \<times> nat \<Rightarrow>
    tester \<times> nat \<times> py_error option" where
  "pdf_tables_loop fname [] (st, n) = (st, n, None)"
| "pdf_tables_loop fname (table # tables) (st, n) =
     (if length table > 1
      then (case pdf_rows_loop fname (tl table) (st, n) of
              (st', n', None) \<Rightarrow> pdf_tables_loop fname tables (st', n')
            | (st', n', Some e) \<Rightarrow> (st', n', Some e))
      else pdf_tables_loop fname tables (st, n))"

text \<open>
  The four \<^verbatim>\<open>print\<close> calls that end the \<^verbatim>\<open>try\<close> body: a check mark with the file's
  name, and the numbers of pages, tables and products.
\<close>

definition pdf_prints :: "string \<Rightarrow> nat \<Rightarrow> nat \<Rightarrow> nat \<Rightarrow> py_error + unit" where
  "pdf_prints fname n_pages n_tables product_count =
     (case py_print ([10003] @ ustr '' '' @ ustr fname) of
        Inl e \<Rightarrow> Inl e
      | Inr _ \<Rightarrow>
     (case py_print_value (ustr ''   Pages: '') (PInt (int n_pages)) of
        Inl e \<Rightarrow> Inl e
      | Inr _ \<Rightarrow>
     (case py_print_value (ustr ''   Tables extracted: '') (PInt (int n_tables)) of
        Inl e \<Rightarrow> Inl e
      | Inr _ \<Rightarrow> py_print_value (ustr ''   Products: '') (PInt (int product_count)))))"

text \<open>
  One iteration of \<^verbatim>\<open>for pdf_file in pdf_files\<close>. The count is raised by
  \<^verbatim>\<open>product_count\<close> after the loops, so not at all when an exception ends them.
\<close>

definition test_pdf_file :: "tester \<Rightarrow> page list src_file \<Rightarrow> tester" where
  "test_pdf_file st f =
     (case f_content f of
        Inl e \<Rightarrow> pdf_add_error st (f_path f) e
      | Inr pages \<Rightarrow>
          (case pdf_tables_loop (f_name f) (collect_tables pages) (st, 0) of
             (st', product_count, Some e) \<Rightarrow> pdf_add_error st' (f_path f) e
           | (st', product_count, None) \<Rightarrow>
               (case pdf_prints (f_name f) (length pages) (length (collect_tables pages))
                                product_count of
                  Inl e \<Rightarrow> pdf_add_error (pdf_add_count st' product_count) (f_path f) e
                | Inr _ \<Rightarrow> pdf_add_count st' product_count)))"

text \<open>
  The method returns at once when the \<^verbatim>\<open>pdf\<close> directory does not exist or
  \<^verbatim>\<open>pdfplumber\<close> cannot be imported.
\<close>

fun test_pdf_catalogs :: "tester \<Rightarrow> page list src_file list option \<Rightarrow> tester" where
  "test_pdf_catalogs st None = st"
| "test_pdf_catalogs st (Some pdf_files) = foldl test_pdf_file st pdf_files"

text \<open>
  \<^verbatim>\<open>measure_pdf_extraction\<close> (test\_extraction\_time.py) walks the same tables under the
  same guards and only counts.
\<close>

definition measure_pdf_count :: "cell list list list \<Rightarrow> nat" where
  "measure_pdf_count tables =
     foldl (\<lambda>product_count table.
              if length table > 1
              then foldl (\<lambda>n row. if row_has_first_cell row then n + 1 else n)
                         product_count (tl table)
              else product_count) 0 tables"

subsection \<open>\<^verbatim>\<open>test_deduplication\<close>\<close>

text \<open>
  \<^verbatim>\<open>duplicates = {k: v for k, v in self.dedup_map.items() if len(v) > 1}\<close>; the number
  of unique products reported is \<^verbatim>\<open>len(self.dedup_map)\<close>.
\<close>

definition duplicates :: "tester \<Rightarrow> (pyval \<times> string list) list" where
  "duplicates st = filter (\<lambda>kv. length (snd kv) > 1) (dedup_map st)"

definition unique_products :: "tester \<Rightarrow> nat" where
  "unique_products st = length (dedup_map st)"

subsection \<open>\<^verbatim>\<open>run\<close>\<close>

text \<open>
  \<^verbatim>\<open>run\<close> calls the three ingestion methods in this order on the tester that
  \<^verbatim>\<open>__init__\<close> made (\<open>init_tester\<close>); \<^verbatim>\<open>test_deduplication\<close> and \<^verbatim>\<open>generate_report\<close>
  then only read the state and print. The value is the state the three methods
  leave, which is the one the run ends with, also when a later print raises.
\<close>

definition run :: "tester \<Rightarrow> pyval src_file list \<Rightarrow> ustring list list src_file list option \<Rightarrow>
    page list src_file list option \<Rightarrow> tester" where
  "run st json_files csv_dir pdf_dir =
     test_pdf_catalogs (test_csv_catalogs (test_json_catalogs st json_files) csv_dir) pdf_dir"

section \<open>The Cache Manager\<close>

text \<open>
  Modelled from the spec: the cache entry of the data model (a stored result with its
  creation and expiry times). The cache behind \<^verbatim>\<open>/api/ingestion/extract\<close> is not among
  the sources; \<^verbatim>\<open>simulate_caching\<close> only sleeps and prints. Times are whole seconds.
\<close>

record 'r cache_entry =
  ce_result :: 'r
  created_at :: nat
  expires_at :: nat

text \<open>
  Modelled from the spec: the cache maps a fingerprint to its entry; \<open>build_calls\<close>
  counts the executions of \<^verbatim>\<open>build_fn\<close>, so that "no re-execution" can be stated.
\<close>

record 'r cache =
  entries :: "string \<Rightarrow> 'r cache_entry option"
  build_calls :: nat

text \<open>Modelled from the spec: the time-to-live is fixed at 24 hours from creation.\<close>

definition ttl_seconds :: nat where
  "ttl_seconds = 24 * 60 * 60"

text \<open>
  Modelled from the spec: expiry is evaluated lazily at read time against the caller's
  current time; an entry is live while that time is before \<open>expires_at\<close>.
\<close>

definition live_entry :: "'r cache \<Rightarrow> nat \<Rightarrow> string \<Rightarrow> 'r cache_entry option" where
  "live_entry c now fp =
     (case entries c fp of
        None \<Rightarrow> None
      | Some e \<Rightarrow> if now < expires_at e then Some e else None)"

text \<open>
  Modelled from the spec: \<^verbatim>\<open>get_or_build(fingerprint, build_fn) -> ExtractionResult, was_hit\<close>.
  On a hit with a live entry the stored result is returned with \<open>was_hit = True\<close> and
  \<^verbatim>\<open>build_fn\<close> is not run. On a miss or an expired entry \<^verbatim>\<open>build_fn\<close> runs once; its
  result is stored with a fresh expiry and returned with \<open>was_hit = False\<close>; a failed
  build is returned to the caller and nothing is stored.
\<close>

definition get_or_build :: "'r cache \<Rightarrow> nat \<Rightarrow> string \<Rightarrow> (unit \<Rightarrow> 'e + 'r) \<Rightarrow>
    'r cache \<times> ('e + 'r \<times> bool)" where
  "get_or_build c now fp build_fn =
     (case live_entry c now fp of
        Some e \<Rightarrow> (c, Inr (ce_result e, True))
      | None \<Rightarrow>
          (case build_fn () of
             Inl err \<Rightarrow> (c\<lparr>build_calls := build_calls c + 1\<rparr>, Inl err)
           | Inr r \<Rightarrow>
               (c\<lparr>entries := (entries c)(fp \<mapsto>
                      \<lparr>ce_result = r, created_at = now, expires_at = now + ttl_seconds\<rparr>),
                   build_calls := build_calls c + 1\<rparr>,
                Inr (r, False))))"

section \<open>Price parsing in the Normalizer\<close>

text \<open>
  Modelled from the spec: the currency of a price. The Normalizer is not among the
  sources; \<^verbatim>\<open>generate_pdf_catalogs.py\<close> only writes the price texts into its tables. The
  one currency symbol the spec and the catalogs use is the dollar sign.
\<close>

datatype currency = USD

text \<open>
  Modelled from the spec: a decimal amount, as its digits without the point and the
  number of digits after the point (\<open>Decimal 5449 2\<close> is 54.49).
\<close>

datatype decimal = Decimal nat nat

text \<open>
  Modelled from the spec: a parsed price is a plain decimal with an optional currency,
  a range kept as a min/max pair with the same currency, or a non-numeric text kept
  verbatim under the tag \<open>Unpriced\<close>.
\<close>

datatype price =
    Amount decimal "currency option"
  | Range decimal decimal "currency option"
  | Unpriced string

text \<open>Modelled from the spec: the decimal digits of a price text.\<close>

definition is_digit :: "char \<Rightarrow> bool" where
  "is_digit c = (let n = (of_char c :: nat) in 48 \<le> n \<and> n \<le> 57)"

text \<open>Modelled from the spec: the number a run of digits writes.\<close>

definition digits_value :: "string \<Rightarrow> nat" where
  "digits_value ds = foldl (\<lambda>n c. 10 * n + (of_char c - 48)) 0 ds"

text \<open>
  Modelled from the spec: a plain decimal is a run of digits, with thousands commas
  allowed (\<^verbatim>\<open>2,499\<close>) and an optional point followed by digits.
\<close>

definition parse_decimal :: "string \<Rightarrow> decimal option" where
  "parse_decimal s =
     (let t = filter (\<lambda>c. c \<noteq> CHR '','') s;
          ip = takeWhile is_digit t;
          rest = dropWhile is_digit t
      in if ip = [] then None
         else (case rest of
                 [] \<Rightarrow> Some (Decimal (digits_value ip) 0)
               | c # fr \<Rightarrow>
                   if c = CHR ''.'' \<and> fr \<noteq> [] \<and> list_all is_digit fr
                   then Some (Decimal (digits_value (ip @ fr)) (length fr))
                   else None))"

text \<open>Modelled from the spec: the optional leading currency symbol.\<close>

definition split_currency :: "string \<Rightarrow> currency option \<times> string" where
  "split_currency s =
     (case s of
        [] \<Rightarrow> (None, [])
      | c # rest \<Rightarrow> if c = CHR ''$'' then (Some USD, rest) else (None, s))"

text \<open>
  Modelled from the spec: price parsing recognises a plain decimal with an optional
  currency symbol, then a range \<^verbatim>\<open>lo-hi\<close> of two decimals, and preserves any other
  text verbatim as \<open>Unpriced\<close>.
\<close>

definition parse_price :: "string \<Rightarrow> price" where
  "parse_price s =
     (case split_currency s of (cur, body) \<Rightarrow>
        (case parse_decimal body of
           Some d \<Rightarrow> Amount d cur
         | None \<Rightarrow>
             (let lo = takeWhile (\<lambda>c. c \<noteq> CHR ''-'') body;
                  hi = drop (length lo + 1) body
              in case parse_decimal lo of
                   None \<Rightarrow> Unpriced s
                 | Some a \<Rightarrow>
                     (case parse_decimal hi of
                        None \<Rightarrow> Unpriced s
                      | Some b \<Rightarrow> Range a b cur))))"

section \<open>Conditions on the inputs\<close>

text \<open>
  A JSON record the loop of \<^verbatim>\<open>test_json_catalogs\<close> gets through: an object whose
  product id (its \<^verbatim>\<open>id\<close>, else its \<^verbatim>\<open>name\<close>, else \<^verbatim>\<open>'unknown'\<close>) can be a dict key.
\<close>

definition json_record_ok :: "pyval \<Rightarrow> bool" where
  "json_record_ok p =
     (case p of
        PDict kvs \<Rightarrow>
          hashable (case map_of kvs (ustr ''id'') of
                      Some v \<Rightarrow> v
                    | None \<Rightarrow> (case map_of kvs (ustr ''name'') of Some v \<Rightarrow> v | None \<Rightarrow> PStr (ustr ''unknown'')))
      | _ \<Rightarrow> False)"

text \<open>
  A valid JSON catalog: an object whose \<^verbatim>\<open>products\<close>, when present, is an array of such
  records.
\<close>

definition json_catalog_ok :: "pyval \<Rightarrow> bool" where
  "json_catalog_ok data =
     (case data of
        PDict kvs \<Rightarrow>
          (case map_of kvs (ustr ''products'') of
             None \<Rightarrow> True
           | Some (PList ps) \<Rightarrow> list_all json_record_ok ps
           | Some _ \<Rightarrow> False)
      | _ \<Rightarrow> False)"

text \<open>The records of a catalog: the elements of its \<^verbatim>\<open>products\<close> array.\<close>

definition json_records :: "pyval \<Rightarrow> pyval list" where
  "json_records data =
     (case data of
        PDict kvs \<Rightarrow> (case map_of kvs (ustr ''products'') of Some (PList ps) \<Rightarrow> ps | _ \<Rightarrow> [])
      | _ \<Rightarrow> [])"

text \<open>A non-empty name: a string with at least one character.\<close>

definition nonempty_text :: "pyval \<Rightarrow> bool" where
  "nonempty_text v = (case v of PStr s \<Rightarrow> s \<noteq> [] | _ \<Rightarrow> False)"

text \<open>A JSON record that does not itself carry an empty name: \<^verbatim>\<open>name\<close> is absent or a non-empty string.\<close>

definition json_name_given :: "pyval \<Rightarrow> bool" where
  "json_name_given p =
     (case p of
        PDict kvs \<Rightarrow> (case map_of kvs (ustr ''name'') of None \<Rightarrow> True | Some v \<Rightarrow> nonempty_text v)
      | _ \<Rightarrow> False)"

text \<open>
  A CSV row that does not itself carry an empty name: \<^verbatim>\<open>Product Name\<close> or \<^verbatim>\<open>Product\<close> is
  non-empty, or \<^verbatim>\<open>id\<close> is absent or non-empty.
\<close>

definition csv_name_given :: "csv_row \<Rightarrow> bool" where
  "csv_name_given row =
     (nonempty_text (row_get row (ustr ''Product Name'') PNone)
      \<or> nonempty_text (row_get row (ustr ''Product'') PNone)
      \<or> nonempty_text (row_get row (ustr ''id'') (PStr (ustr ''unknown''))))"

text \<open>A cell value of a CSV row: a string, or \<^verbatim>\<open>None\<close> for a missing field.\<close>

definition plain_cell :: "pyval \<Rightarrow> bool" where
  "plain_cell v = (case v of PNone \<Rightarrow> True | PStr s \<Rightarrow> True | _ \<Rightarrow> False)"

text \<open>
  A PDF row whose second cell, when there is one, is a string: the rows on which
  \<^verbatim>\<open>row[1].strip()\<close> does not raise.
\<close>

definition second_cell_ok :: "cell list \<Rightarrow> bool" where
  "second_cell_ok row =
     (case row of
        c0 # c1 # rest \<Rightarrow> (case c1 of None \<Rightarrow> False | Some s \<Rightarrow> True)
      | _ \<Rightarrow> True)"

text \<open>
  The resolution rule in the words of the specification: the aliases are tried in their
  order and the first one that is present with a non-empty value wins.
\<close>

fun spec_resolve :: "ustring list \<Rightarrow> csv_row \<Rightarrow> pyval option" where
  "spec_resolve [] row = None"
| "spec_resolve (a # aliases) row =
     (if nonempty_text (row_get row a PNone) then Some (row_get row a PNone)
      else spec_resolve aliases row)"

text \<open>
  The name \<^verbatim>\<open>test_json_catalogs\<close> prints for a catalog: its \<^verbatim>\<open>catalog_name\<close>, else the
  file's name.
\<close>

definition json_catalog_name :: "pyval src_file \<Rightarrow> pyval \<Rightarrow> pyval" where
  "json_catalog_name f data =
     (case data of
        PDict kvs \<Rightarrow>
          (case map_of kvs (ustr ''catalog_name'') of
             Some v \<Rightarrow> v
           | None \<Rightarrow> PStr (ustr (f_name f)))
      | _ \<Rightarrow> PNone)"

text \<open>The products a run returns, in the order the three methods appended them.\<close>

definition all_products :: "tester \<Rightarrow> product list" where
  "all_products st =
     r_products (res_json st) @ r_products (res_csv st) @ r_products (res_pdf st)"

text \<open>The sources of the products among \<open>ps\<close> whose id is the key \<open>k\<close>.\<close>

definition sources_of :: "pyval \<Rightarrow> product list \<Rightarrow> string list" where
  "sources_of k ps = map p_source (filter (\<lambda>p. dedup_key (p_id p) = dedup_key k) ps)"

text \<open>
  The dedup map that the calls of \<^verbatim>\<open>_add_dedup\<close> for the products \<open>ps\<close> leave behind,
  one call per product in the order of the list: a product whose id is not hashable
  makes its call raise, and nothing is stored for it.
\<close>

definition dedup_feed :: "(pyval \<times> string list) list \<Rightarrow> product list \<Rightarrow>
    (pyval \<times> string list) list" where
  "dedup_feed m ps =
     foldl (\<lambda>m p. if hashable (p_id p) then add_dedup_map m (p_id p) (p_source p) else m) m ps"

section \<open>Example inputs\<close>

text \<open>
  A JSON catalog of two records: one with its own \<^verbatim>\<open>id\<close>, one identified by its name.
\<close>

definition ex_json_catalog :: pyval where
  "ex_json_catalog =
     PDict [(ustr ''catalog_name'', PStr (ustr ''Extended Electronics'')),
            (ustr ''products'', PList
               [PDict [(ustr ''id'', PStr (ustr ''px8p'')), (ustr ''name'', PStr (ustr ''Google Pixel 8 Pro'')),
                       (ustr ''vendor'', PStr (ustr ''Google''))],
                PDict [(ustr ''name'', PStr (ustr ''HP Spectre x360'')), (ustr ''vendor'', PStr (ustr ''HP''))]])]"

definition ex_json_file :: "pyval src_file" where
  "ex_json_file =
     \<lparr>f_path = ''catalogs/extended_electronics_catalog.json'',
      f_name = ''extended_electronics_catalog.json'',
      f_content = Inr ex_json_catalog\<rparr>"

text \<open>A catalog whose one record carries an empty name, and one whose record has no name.\<close>

definition ex_blank_name_catalog :: pyval where
  "ex_blank_name_catalog =
     PDict [(ustr ''products'', PList [PDict [(ustr ''name'', PStr []), (ustr ''vendor'', PStr (ustr ''Acme''))]])]"

definition ex_json_blank_name_file :: "pyval src_file" where
  "ex_json_blank_name_file =
     \<lparr>f_path = ''catalogs/blank_name_catalog.json'', f_name = ''blank_name_catalog.json'',
      f_content = Inr ex_blank_name_catalog\<rparr>"

definition ex_no_name_catalog :: pyval where
  "ex_no_name_catalog = PDict [(ustr ''products'', PList [PDict [(ustr ''vendor'', PStr (ustr ''Acme''))]])]"

definition ex_json_no_name_file :: "pyval src_file" where
  "ex_json_no_name_file =
     \<lparr>f_path = ''catalogs/no_name_catalog.json'', f_name = ''no_name_catalog.json'',
      f_content = Inr ex_no_name_catalog\<rparr>"

text \<open>
  A catalog of three records whose second one has a JSON array as its \<^verbatim>\<open>id\<close>.
\<close>

definition ex_list_id_catalog :: pyval where
  "ex_list_id_catalog =
     PDict [(ustr ''products'', PList
               [PDict [(ustr ''id'', PStr (ustr ''a1'')), (ustr ''name'', PStr (ustr ''Alpha''))],
                PDict [(ustr ''id'', PList [PStr (ustr ''x'')]), (ustr ''name'', PStr (ustr ''Beta''))],
                PDict [(ustr ''id'', PStr (ustr ''c3'')), (ustr ''name'', PStr (ustr ''Gamma''))]])]"

definition ex_json_list_id_file :: "pyval src_file" where
  "ex_json_list_id_file =
     \<lparr>f_path = ''catalogs/list_id_catalog.json'', f_name = ''list_id_catalog.json'',
      f_content = Inr ex_list_id_catalog\<rparr>"

text \<open>
  A payload without \<^verbatim>\<open>products\<close> whose catalog name is the lone surrogate \<^verbatim>\<open>U+D800\<close>
  (the JSON text \<^verbatim>\<open>{"catalog_name": "\ud800"}\<close>).
\<close>

definition ex_surrogate_catalog :: pyval where
  "ex_surrogate_catalog = PDict [(ustr ''catalog_name'', PStr [55296])]"

definition ex_json_surrogate_file :: "pyval src_file" where
  "ex_json_surrogate_file =
     \<lparr>f_path = ''catalogs/surrogate_catalog.json'', f_name = ''surrogate_catalog.json'',
      f_content = Inr ex_surrogate_catalog\<rparr>"

text \<open>A file that \<^verbatim>\<open>json.load\<close> rejects, and a catalog without products.\<close>

definition ex_json_broken_file :: "pyval src_file" where
  "ex_json_broken_file =
     \<lparr>f_path = ''catalogs/broken.json'', f_name = ''broken.json'',
      f_content = Inl (LoadError ''Expecting value: line 1 column 1 (char 0)'')\<rparr>"

definition ex_empty_catalog :: pyval where
  "ex_empty_catalog = PDict [(ustr ''catalog_name'', PStr (ustr ''Empty''))]"

definition ex_json_empty_file :: "pyval src_file" where
  "ex_json_empty_file =
     \<lparr>f_path = ''catalogs/empty_catalog.json'', f_name = ''empty_catalog.json'',
      f_content = Inr ex_empty_catalog\<rparr>"

text \<open>
  A CSV file of a header, seven rows of three cells and one row of two cells (the last
  but one line).
\<close>

definition ex_csv_header :: "ustring list" where
  "ex_csv_header = map ustr [''Product Name'', ''Vendor'', ''Price'']"

definition ex_csv_body :: "ustring list list" where
  "ex_csv_body = map (map ustr)
     [[''Google Pixel 8 Pro'', ''Google'', ''$999''],
      [''HP Spectre x360'', ''HP'', ''$1,499''],
      [''Microsoft Surface Pro 10'', ''Microsoft'', ''$1,199''],
      [''Dell XPS 13'', ''Dell'', ''$1,099''],
      [''Sony WH-1000XM5'', ''Sony'', ''$399''],
      [''Samsung Galaxy S24'', ''Samsung'', ''$899''],
      [''Lenovo ThinkPad X1'', ''Lenovo''],
      [''Apple MacBook Air'', ''Apple'', ''$1,299'']]"

definition ex_csv_file :: "ustring list list src_file" where
  "ex_csv_file =
     \<lparr>f_path = ''catalogs/csv/electronics_products.csv'', f_name = ''electronics_products.csv'',
      f_content = Inr (ex_csv_header # ex_csv_body)\<rparr>"

text \<open>
  A CSV file with the columns of the cloud-services catalog, and its one data row as
  \<^verbatim>\<open>csv.DictReader\<close> hands it over.
\<close>

definition ex_service_header :: "ustring list" where
  "ex_service_header = map ustr [''Service'', ''Provider'', ''Monthly Cost'', ''Key Features'']"

definition ex_service_body :: "ustring list list" where
  "ex_service_body = map (map ustr) [[''EC2 Instance'', ''AWS'', ''$10-50'', ''t3.medium, 4GB RAM, 20GB SSD'']]"

definition ex_service_file :: "ustring list list src_file" where
  "ex_service_file =
     \<lparr>f_path = ''catalogs/csv/cloud_services.csv'', f_name = ''cloud_services.csv'',
      f_content = Inr (ex_service_header # ex_service_body)\<rparr>"

definition ex_service_row :: csv_row where
  "ex_service_row = dict_row ex_service_header (hd ex_service_body)"

text \<open>
  A PDF of one page with one table, whose second data row has an empty second cell
  (\<^verbatim>\<open>None\<close>, as \<^verbatim>\<open>pdfplumber\<close> reports an empty cell).
\<close>

definition ex_pdf_tables :: "cell list list list" where
  "ex_pdf_tables =
     [[[Some (ustr ''Service''), Some (ustr ''Provider''), Some (ustr ''Monthly Cost'')],
       [Some (ustr ''EC2 Instance''), Some (ustr ''AWS''), Some (ustr ''$10-50'')],
       [Some (ustr ''Cloud Run''), None, Some (ustr ''Pay-as-you-go'')],
       [Some (ustr ''Cloud SQL''), Some (ustr ''GCP''), Some (ustr ''$15-100'')]]]"

definition ex_pdf_file :: "page list src_file" where
  "ex_pdf_file =
     \<lparr>f_path = ''catalogs/pdf/Cloud_Services_Pricing_2026.pdf'',
      f_name = ''Cloud_Services_Pricing_2026.pdf'',
      f_content = Inr [\<lparr>pg_text = Some (ustr ''Cloud Services Pricing Guide 2026''),
                        pg_tables = ex_pdf_tables\<rparr>]\<rparr>"

section \<open>Properties\<close>

subsection \<open>What the prints can raise\<close>

text \<open>
  Texts written in ASCII always print; so do the status marks. Of the prints that end
  the \<^verbatim>\<open>try\<close> bodies only the one of the catalog name of a JSON file can raise.
\<close>

lemma print_ok_ustr: "print_ok (ustr s)"
proof -
  have "\<not> surrogate (of_char c)" for c :: char
  proof -
    have "(of_char c :: int) = int (of_char c)" by (simp only: of_nat_of_char)
    then show ?thesis
      using nat_of_char_less_256[of c] unfolding surrogate_def by linarith
  qed
  then show ?thesis by (simp add: print_ok_def ustr_def list_all_iff)
qed

lemma print_ok_append: "print_ok (a @ b) \<longleftrightarrow> print_ok a \<and> print_ok b"
  by (simp add: print_ok_def)

lemma print_ok_Nil: "print_ok []"
  by (simp add: print_ok_def)

lemma print_ok_Cons: "print_ok (c # text) \<longleftrightarrow> \<not> surrogate c \<and> print_ok text"
  by (simp add: print_ok_def)

lemma print_ok_mark: "\<not> surrogate 10003" "\<not> surrogate 9675"
  by (simp_all add: surrogate_def)

lemma py_print_value_int: "py_print_value (ustr label) (PInt n) = Inr ()"
  by (simp add: py_print_value_def print_ok_ustr)

lemma json_prints_eq:
  "json_prints fname catalog_name product_count
     = (if str_printable catalog_name then Inr () else Inl UnicodeEncodeError)"
  by (simp add: json_prints_def Let_def py_print_def py_print_value_def print_ok_append
                print_ok_ustr print_ok_Nil print_ok_Cons print_ok_mark)

lemma csv_prints_ok: "csv_prints fname product_count = Inr ()"
  by (simp add: csv_prints_def py_print_def py_print_value_int print_ok_append
                print_ok_ustr print_ok_Nil print_ok_Cons print_ok_mark)

lemma pdf_prints_ok: "pdf_prints fname n_pages n_tables product_count = Inr ()"
  by (simp add: pdf_prints_def py_print_def py_print_value_int print_ok_append
                print_ok_ustr print_ok_Nil print_ok_Cons print_ok_mark)

subsection \<open>The dedup map\<close>

lemma dmap_lookup_Nil: "dmap_lookup [] k = None"
  by (simp add: dmap_lookup_def)

lemma dmap_lookup_Cons:
  "dmap_lookup (e # m) k = (if dedup_key (fst e) = dedup_key k then Some (snd e) else dmap_lookup m k)"
  by (simp add: dmap_lookup_def)

lemma dmap_lookup_append_other:
  "dmap_lookup (dmap_append m k s) k' =
     (if dedup_key k = dedup_key k' then map_option (\<lambda>ss. ss @ [s]) (dmap_lookup m k')
      else dmap_lookup m k')"
  by (induction m) (auto simp: dmap_lookup_Nil dmap_lookup_Cons dmap_append_def)

lemma dmap_lookup_contains: "dmap_contains m k \<longleftrightarrow> dmap_lookup m k \<noteq> None"
  by (induction m) (auto simp: dmap_lookup_Nil dmap_lookup_Cons dmap_contains_def)

lemma dmap_lookup_snoc:
  "dmap_lookup (m @ [(k, v)]) k' =
     (case dmap_lookup m k' of Some ss \<Rightarrow> Some ss
      | None \<Rightarrow> if dedup_key k = dedup_key k' then Some v else None)"
  by (induction m) (auto simp: dmap_lookup_Nil dmap_lookup_Cons)

lemma dmap_lookup_key: "dedup_key k = dedup_key k' \<Longrightarrow> dmap_lookup m k = dmap_lookup m k'"
  by (simp add: dmap_lookup_def)

lemma dmap_lookup_add:
  "dmap_lookup (add_dedup_map m k s) k' =
     (if dedup_key k = dedup_key k'
      then Some ((case dmap_lookup m k' of None \<Rightarrow> [] | Some ss \<Rightarrow> ss) @ [s])
      else dmap_lookup m k')"
proof (cases "dmap_contains m k")
  case True
  then show ?thesis
    using dmap_lookup_contains[of m k] dmap_lookup_key[of k k' m]
    by (auto simp: add_dedup_map_def dmap_lookup_append_other split: option.splits)
next
  case False
  then show ?thesis
    using dmap_lookup_contains[of m k]
    by (auto simp: add_dedup_map_def dmap_lookup_append_other dmap_lookup_snoc split: option.splits)
qed

lemma dedup_key_hashable: "dedup_key a = dedup_key b \<Longrightarrow> hashable a = hashable b"
  by (cases a; cases b) (auto split: if_splits)

lemma dedup_feed_Nil: "dedup_feed m [] = m"
  by (simp add: dedup_feed_def)

lemma dedup_feed_Cons:
  "dedup_feed m (p # ps) =
     dedup_feed (if hashable (p_id p) then add_dedup_map m (p_id p) (p_source p) else m) ps"
  by (simp add: dedup_feed_def)

lemma dedup_feed_append: "dedup_feed m (ps @ qs) = dedup_feed (dedup_feed m ps) qs"
  by (simp add: dedup_feed_def)

lemma dmap_lookup_feed:
  assumes "hashable k"
  shows "dmap_lookup (dedup_feed m ps) k =
     (case (case dmap_lookup m k of None \<Rightarrow> [] | Some ss \<Rightarrow> ss) @ sources_of k ps of
        [] \<Rightarrow> dmap_lookup m k
      | ss \<Rightarrow> Some ss)"
proof (induction ps arbitrary: m)
  case Nil
  then show ?case
    by (simp add: dedup_feed_Nil sources_of_def split: option.splits list.splits)
next
  case (Cons p ps)
  have unh: "dedup_key (p_id p) \<noteq> dedup_key k" if "\<not> hashable (p_id p)"
    using that assms dedup_key_hashable[of "p_id p" k] by auto
  show ?case
    unfolding dedup_feed_Cons Cons.IH
    by (auto simp: dmap_lookup_add sources_of_def unh split: option.splits list.splits)
qed

subsection \<open>What the loops store in the dedup map\<close>

text \<open>
  Each of the three loops appends a product and then calls \<^verbatim>\<open>_add_dedup\<close> with its id
  and source. Whatever the files hold and wherever an exception ends a file, the
  products appended and the dedup map stay in step: the map of a run is the one that
  these calls build from the products the run returned.
\<close>

lemma json_product_source: "json_product fname p = Inr pr \<Longrightarrow> p_source pr = fname"
  by (cases p) (auto simp: json_product_def)

lemma json_loop_feed:
  "\<exists>new. r_products (res_json (fst (json_loop fname ps st))) = r_products (res_json st) @ new
        \<and> dedup_map (fst (json_loop fname ps st)) = dedup_feed (dedup_map st) new
        \<and> res_csv (fst (json_loop fname ps st)) = res_csv st
        \<and> res_pdf (fst (json_loop fname ps st)) = res_pdf st"
proof (induction ps arbitrary: st)
  case Nil
  show ?case by (simp add: dedup_feed_Nil)
next
  case (Cons p ps)
  show ?case
  proof (cases "json_product fname p")
    case (Inl e)
    then show ?thesis by (simp add: dedup_feed_Nil)
  next
    case (Inr pr)
    note src = json_product_source[OF Inr]
    show ?thesis
    proof (cases "hashable (p_id pr)")
      case False
      have "r_products (res_json (json_add_product st pr)) = r_products (res_json st) @ [pr]"
        by (simp add: json_add_product_def)
      moreover have "dedup_map (json_add_product st pr) = dedup_feed (dedup_map st) [pr]"
        using False by (simp add: json_add_product_def dedup_feed_Cons dedup_feed_Nil)
      moreover have "res_csv (json_add_product st pr) = res_csv st"
        "res_pdf (json_add_product st pr) = res_pdf st"
        by (simp_all add: json_add_product_def)
      ultimately show ?thesis
        using Inr False by (auto simp: add_dedup_def)
    next
      case True
      let ?st2 = "(json_add_product st pr)\<lparr>dedup_map :=
                     add_dedup_map (dedup_map (json_add_product st pr)) (p_id pr) fname\<rparr>"
      from Cons.IH[of ?st2] obtain new where
        a: "r_products (res_json (fst (json_loop fname ps ?st2)))
              = r_products (res_json ?st2) @ new"
        and b: "dedup_map (fst (json_loop fname ps ?st2)) = dedup_feed (dedup_map ?st2) new"
        and c: "res_csv (fst (json_loop fname ps ?st2)) = res_csv ?st2"
        and d: "res_pdf (fst (json_loop fname ps ?st2)) = res_pdf ?st2"
        by blast
      have step: "json_loop fname (p # ps) st = json_loop fname ps ?st2"
        using Inr True by (simp add: add_dedup_def)
      have "r_products (res_json (fst (json_loop fname (p # ps) st)))
              = r_products (res_json st) @ (pr # new)"
        unfolding step a by (simp add: json_add_product_def)
      moreover have "dedup_map (fst (json_loop fname (p # ps) st))
              = dedup_feed (dedup_map st) (pr # new)"
        unfolding step b using True by (simp add: dedup_feed_Cons src json_add_product_def)
      moreover have "res_csv (fst (json_loop fname (p # ps) st)) = res_csv st"
        "res_pdf (fst (json_loop fname (p # ps) st)) = res_pdf st"
        unfolding step c d by (simp_all add: json_add_product_def)
      ultimately show ?thesis by blast
    qed
  qed
qed

lemma test_json_file_feed:
  "\<exists>new. r_products (res_json (test_json_file st f)) = r_products (res_json st) @ new
        \<and> dedup_map (test_json_file st f) = dedup_feed (dedup_map st) new
        \<and> res_csv (test_json_file st f) = res_csv st
        \<and> res_pdf (test_json_file st f) = res_pdf st"
proof -
  have err: "r_products (res_json (json_add_error s p e)) = r_products (res_json s)"
    "dedup_map (json_add_error s p e) = dedup_map s"
    "res_csv (json_add_error s p e) = res_csv s"
    "res_pdf (json_add_error s p e) = res_pdf s" for s p e
    by (simp_all add: json_add_error_def)
  have cnt: "r_products (res_json (json_add_count s n)) = r_products (res_json s)"
    "dedup_map (json_add_count s n) = dedup_map s"
    "res_csv (json_add_count s n) = res_csv s"
    "res_pdf (json_add_count s n) = res_pdf s" for s n
    by (simp_all add: json_add_count_def)
  have nil: "\<exists>new. r_products (res_json st) = r_products (res_json st) @ new
        \<and> dedup_map st = dedup_feed (dedup_map st) new"
    by (rule exI[of _ "[]"]) (simp add: dedup_feed_Nil)
  have loop: "\<exists>new. r_products (res_json s') = r_products (res_json st) @ new
        \<and> dedup_map s' = dedup_feed (dedup_map st) new
        \<and> res_csv s' = res_csv st \<and> res_pdf s' = res_pdf st"
    if "json_loop fname ps (json_add_count st n) = (s', x)" for fname ps n s' x
    using json_loop_feed[of fname ps "json_add_count st n"] that by (simp add: cnt)
  show ?thesis
    using nil
    by (auto simp: test_json_file_def err split: sum.splits prod.splits option.splits
             dest!: loop)
qed

lemma foldl_test_json_file_feed:
  "\<exists>new. r_products (res_json (foldl test_json_file st fs)) = r_products (res_json st) @ new
        \<and> dedup_map (foldl test_json_file st fs) = dedup_feed (dedup_map st) new
        \<and> res_csv (foldl test_json_file st fs) = res_csv st
        \<and> res_pdf (foldl test_json_file st fs) = res_pdf st"
proof (induction fs arbitrary: st)
  case Nil
  show ?case by (simp add: dedup_feed_Nil)
next
  case (Cons f fs)
  from test_json_file_feed[of st f] obtain n1 where
    a: "r_products (res_json (test_json_file st f)) = r_products (res_json st) @ n1"
       "dedup_map (test_json_file st f) = dedup_feed (dedup_map st) n1"
       "res_csv (test_json_file st f) = res_csv st"
       "res_pdf (test_json_file st f) = res_pdf st"
    by blast
  from Cons.IH[of "test_json_file st f"] obtain n2 where
    b: "r_products (res_json (foldl test_json_file (test_json_file st f) fs))
          = r_products (res_json (test_json_file st f)) @ n2"
       "dedup_map (foldl test_json_file (test_json_file st f) fs)
          = dedup_feed (dedup_map (test_json_file st f)) n2"
       "res_csv (foldl test_json_file (test_json_file st f) fs) = res_csv (test_json_file st f)"
       "res_pdf (foldl test_json_file (test_json_file st f) fs) = res_pdf (test_json_file st f)"
    by blast
  show ?case
    by (rule exI[of _ "n1 @ n2"]) (simp add: a b dedup_feed_append)
qed

lemma csv_loop_feed:
  "\<exists>new. r_products (res_csv (fst (csv_loop fname rows st))) = r_products (res_csv st) @ new
        \<and> dedup_map (fst (csv_loop fname rows st)) = dedup_feed (dedup_map st) new
        \<and> res_json (fst (csv_loop fname rows st)) = res_json st
        \<and> res_pdf (fst (csv_loop fname rows st)) = res_pdf st"
proof (induction rows arbitrary: st)
  case Nil
  show ?case by (simp add: dedup_feed_Nil)
next
  case (Cons row rows)
  let ?pr = "csv_product fname row"
  have src: "p_source ?pr = fname" by (simp add: csv_product_def)
  show ?case
  proof (cases "hashable (p_id ?pr)")
    case False
    have "r_products (res_csv (csv_add_product st ?pr)) = r_products (res_csv st) @ [?pr]"
      by (simp add: csv_add_product_def)
    moreover have "dedup_map (csv_add_product st ?pr) = dedup_feed (dedup_map st) [?pr]"
      using False by (simp add: csv_add_product_def dedup_feed_Cons dedup_feed_Nil)
    moreover have "res_json (csv_add_product st ?pr) = res_json st"
      "res_pdf (csv_add_product st ?pr) = res_pdf st"
      by (simp_all add: csv_add_product_def)
    ultimately show ?thesis
      using False by (auto simp: add_dedup_def Let_def)
  next
    case True
    let ?st2 = "(csv_add_product st ?pr)\<lparr>dedup_map :=
                   add_dedup_map (dedup_map (csv_add_product st ?pr)) (p_id ?pr) fname\<rparr>"
    from Cons.IH[of ?st2] obtain new where
      a: "r_products (res_csv (fst (csv_loop fname rows ?st2)))
            = r_products (res_csv ?st2) @ new"
      and b: "dedup_map (fst (csv_loop fname rows ?st2)) = dedup_feed (dedup_map ?st2) new"
      and c: "res_json (fst (csv_loop fname rows ?st2)) = res_json ?st2"
      and d: "res_pdf (fst (csv_loop fname rows ?st2)) = res_pdf ?st2"
      by blast
    have step: "csv_loop fname (row # rows) st = csv_loop fname rows ?st2"
      using True by (simp add: add_dedup_def Let_def)
    have "r_products (res_csv (fst (csv_loop fname (row # rows) st)))
            = r_products (res_csv st) @ (?pr # new)"
      unfolding step a by (simp add: csv_add_product_def)
    moreover have "dedup_map (fst (csv_loop fname (row # rows) st))
            = dedup_feed (dedup_map st) (?pr # new)"
      unfolding step b using True by (simp add: dedup_feed_Cons src csv_add_product_def)
    moreover have "res_json (fst (csv_loop fname (row # rows) st)) = res_json st"
      "res_pdf (fst (csv_loop fname (row # rows) st)) = res_pdf st"
      unfolding step c d by (simp_all add: csv_add_product_def)
    ultimately show ?thesis by blast
  qed
qed

lemma test_csv_file_feed:
  "\<exists>new. r_products (res_csv (test_csv_file st f)) = r_products (res_csv st) @ new
        \<and> dedup_map (test_csv_file st f) = dedup_feed (dedup_map st) new
        \<and> res_json (test_csv_file st f) = res_json st
        \<and> res_pdf (test_csv_file st f) = res_pdf st"
proof -
  have err: "r_products (res_csv (csv_add_error s p e)) = r_products (res_csv s)"
    "dedup_map (csv_add_error s p e) = dedup_map s"
    "res_json (csv_add_error s p e) = res_json s"
    "res_pdf (csv_add_error s p e) = res_pdf s" for s p e
    by (simp_all add: csv_add_error_def)
  have cnt: "r_products (res_csv (csv_add_count s n)) = r_products (res_csv s)"
    "dedup_map (csv_add_count s n) = dedup_map s"
    "res_json (csv_add_count s n) = res_json s"
    "res_pdf (csv_add_count s n) = res_pdf s" for s n
    by (simp_all add: csv_add_count_def)
  have nil: "\<exists>new. r_products (res_csv st) = r_products (res_csv st) @ new
        \<and> dedup_map st = dedup_feed (dedup_map st) new"
    by (rule exI[of _ "[]"]) (simp add: dedup_feed_Nil)
  have loop: "\<exists>new. r_products (res_csv s') = r_products (res_csv st) @ new
        \<and> dedup_map s' = dedup_feed (dedup_map st) new
        \<and> res_json s' = res_json st \<and> res_pdf s' = res_pdf st"
    if "csv_loop fname rows (csv_add_count st n) = (s', x)" for fname rows n s' x
    using csv_loop_feed[of fname rows "csv_add_count st n"] that by (simp add: cnt)
  show ?thesis
    using nil
    by (auto simp: test_csv_file_def Let_def err split: sum.splits prod.splits option.splits
             dest!: loop)
qed

lemma foldl_test_csv_file_feed:
  "\<exists>new. r_products (res_csv (foldl test_csv_file st fs)) = r_products (res_csv st) @ new
        \<and> dedup_map (foldl test_csv_file st fs) = dedup_feed (dedup_map st) new
        \<and> res_json (foldl test_csv_file st fs) = res_json st
        \<and> res_pdf (foldl test_csv_file st fs) = res_pdf st"
proof (induction fs arbitrary: st)
  case Nil
  show ?case by (simp add: dedup_feed_Nil)
next
  case (Cons f fs)
  from test_csv_file_feed[of st f] obtain n1 where
    a: "r_products (res_csv (test_csv_file st f)) = r_products (res_csv st) @ n1"
       "dedup_map (test_csv_file st f) = dedup_feed (dedup_map st) n1"
       "res_json (test_csv_file st f) = res_json st"
       "res_pdf (test_csv_file st f) = res_pdf st"
    by blast
  from Cons.IH[of "test_csv_file st f"] obtain n2 where
    b: "r_products (res_csv (foldl test_csv_file (test_csv_file st f) fs))
          = r_products (res_csv (test_csv_file st f)) @ n2"
       "dedup_map (foldl test_csv_file (test_csv_file st f) fs)
          = dedup_feed (dedup_map (test_csv_file st f)) n2"
       "res_json (foldl test_csv_file (test_csv_file st f) fs) = res_json (test_csv_file st f)"
       "res_pdf (foldl test_csv_file (test_csv_file st f) fs) = res_pdf (test_csv_file st f)"
    by blast
  show ?case
    by (rule exI[of _ "n1 @ n2"]) (simp add: a b dedup_feed_append)
qed

lemma pdf_product_source: "pdf_product fname row = Inr pr \<Longrightarrow> p_source pr = fname"
  by (auto simp: pdf_product_def split: list.splits option.splits)

lemma pdf_rows_loop_feed:
  "\<exists>new. r_products (res_pdf (fst (pdf_rows_loop fname rows (st, n))))
            = r_products (res_pdf st) @ new
        \<and> dedup_map (fst (pdf_rows_loop fname rows (st, n))) = dedup_feed (dedup_map st) new
        \<and> res_json (fst (pdf_rows_loop fname rows (st, n))) = res_json st
        \<and> res_csv (fst (pdf_rows_loop fname rows (st, n))) = res_csv st
        \<and> r_count (res_pdf (fst (pdf_rows_loop fname rows (st, n)))) = r_count (res_pdf st)
        \<and> r_errors (res_pdf (fst (pdf_rows_loop fname rows (st, n)))) = r_errors (res_pdf st)"
proof (induction rows arbitrary: st n)
  case Nil
  show ?case by (simp add: dedup_feed_Nil)
next
  case (Cons row rows)
  show ?case
  proof (cases "row_has_first_cell row")
    case False
    with Cons.IH[of st n] show ?thesis by simp
  next
    case first: True
    show ?thesis
    proof (cases "pdf_product fname row")
      case (Inl e)
      then show ?thesis using first by (simp add: dedup_feed_Nil)
    next
      case (Inr pr)
      note src = pdf_product_source[OF Inr]
      show ?thesis
      proof (cases "hashable (p_id pr)")
        case False
        have "r_products (res_pdf (pdf_add_product st pr)) = r_products (res_pdf st) @ [pr]"
          by (simp add: pdf_add_product_def)
        moreover have "dedup_map (pdf_add_product st pr) = dedup_feed (dedup_map st) [pr]"
          using False by (simp add: pdf_add_product_def dedup_feed_Cons dedup_feed_Nil)
        moreover have "res_json (pdf_add_product st pr) = res_json st"
          "res_csv (pdf_add_product st pr) = res_csv st"
          "r_count (res_pdf (pdf_add_product st pr)) = r_count (res_pdf st)"
          "r_errors (res_pdf (pdf_add_product st pr)) = r_errors (res_pdf st)"
          by (simp_all add: pdf_add_product_def)
        ultimately show ?thesis
          using Inr False first by (auto simp: add_dedup_def)
      next
        case True
        let ?st2 = "(pdf_add_product st pr)\<lparr>dedup_map :=
                       add_dedup_map (dedup_map (pdf_add_product st pr)) (p_id pr) fname\<rparr>"
        from Cons.IH[of ?st2 "n + 1"] obtain new where
          a: "r_products (res_pdf (fst (pdf_rows_loop fname rows (?st2, n + 1))))
                = r_products (res_pdf ?st2) @ new"
          and b: "dedup_map (fst (pdf_rows_loop fname rows (?st2, n + 1)))
                = dedup_feed (dedup_map ?st2) new"
          and c: "res_json (fst (pdf_rows_loop fname rows (?st2, n + 1))) = res_json ?st2"
          and d: "res_csv (fst (pdf_rows_loop fname rows (?st2, n + 1))) = res_csv ?st2"
          and e: "r_count (res_pdf (fst (pdf_rows_loop fname rows (?st2, n + 1))))
                = r_count (res_pdf ?st2)"
          and g: "r_errors (res_pdf (fst (pdf_rows_loop fname rows (?st2, n + 1))))
                = r_errors (res_pdf ?st2)"
          by blast
        have step: "pdf_rows_loop fname (row # rows) (st, n)
                      = pdf_rows_loop fname rows (?st2, n + 1)"
          using Inr True first by (simp add: add_dedup_def)
        have "r_products (res_pdf (fst (pdf_rows_loop fname (row # rows) (st, n))))
                = r_products (res_pdf st) @ (pr # new)"
          unfolding step a by (simp add: pdf_add_product_def)
        moreover have "dedup_map (fst (pdf_rows_loop fname (row # rows) (st, n)))
                = dedup_feed (dedup_map st) (pr # new)"
          unfolding step b using True by (simp add: dedup_feed_Cons src pdf_add_product_def)
        moreover have "res_json (fst (pdf_rows_loop fname (row # rows) (st, n))) = res_json st"
          "res_csv (fst (pdf_rows_loop fname (row # rows) (st, n))) = res_csv st"
          "r_count (res_pdf (fst (pdf_rows_loop fname (row # rows) (st, n)))) = r_count (res_pdf st)"
          "r_errors (res_pdf (fst (pdf_rows_loop fname (row # rows) (st, n)))) = r_errors (res_pdf st)"
          unfolding step c d e g by (simp_all add: pdf_add_product_def)
        ultimately show ?thesis by blast
      qed
    qed
  qed
qed

lemma pdf_tables_loop_feed:
  "\<exists>new. r_products (res_pdf (fst (pdf_tables_loop fname tables (st, n))))
            = r_products (res_pdf st) @ new
        \<and> dedup_map (fst (pdf_tables_loop fname tables (st, n))) = dedup_feed (dedup_map st) new
        \<and> res_json (fst (pdf_tables_loop fname tables (st, n))) = res_json st
        \<and> res_csv (fst (pdf_tables_loop fname tables (st, n))) = res_csv st
        \<and> r_count (res_pdf (fst (pdf_tables_loop fname tables (st, n)))) = r_count (res_pdf st)
        \<and> r_errors (res_pdf (fst (pdf_tables_loop fname tables (st, n)))) = r_errors (res_pdf st)"
proof (induction tables arbitrary: st n)
  case Nil
  show ?case by (simp add: dedup_feed_Nil)
next
  case (Cons table tables)
  show ?case
  proof (cases "length table > 1")
    case False
    with Cons.IH[of st n] show ?thesis by simp
  next
    case True
    obtain st1 n1 x where r: "pdf_rows_loop fname (tl table) (st, n) = (st1, n1, x)"
      by (cases "pdf_rows_loop fname (tl table) (st, n)")
    from pdf_rows_loop_feed[of fname "tl table" st n] r obtain new1 where
      a: "r_products (res_pdf st1) = r_products (res_pdf st) @ new1"
         "dedup_map st1 = dedup_feed (dedup_map st) new1"
         "res_json st1 = res_json st" "res_csv st1 = res_csv st"
         "r_count (res_pdf st1) = r_count (res_pdf st)"
         "r_errors (res_pdf st1) = r_errors (res_pdf st)"
      by auto
    show ?thesis
    proof (cases x)
      case (Some e)
      have "pdf_tables_loop fname (table # tables) (st, n) = (st1, n1, Some e)"
        using True r Some by simp
      then show ?thesis using a by auto
    next
      case None
      have step: "pdf_tables_loop fname (table # tables) (st, n)
                    = pdf_tables_loop fname tables (st1, n1)"
        using True r None by simp
      from Cons.IH[of st1 n1] obtain new2 where
        b: "r_products (res_pdf (fst (pdf_tables_loop fname tables (st1, n1))))
              = r_products (res_pdf st1) @ new2"
           "dedup_map (fst (pdf_tables_loop fname tables (st1, n1)))
              = dedup_feed (dedup_map st1) new2"
           "res_json (fst (pdf_tables_loop fname tables (st1, n1))) = res_json st1"
           "res_csv (fst (pdf_tables_loop fname tables (st1, n1))) = res_csv st1"
           "r_count (res_pdf (fst (pdf_tables_loop fname tables (st1, n1)))) = r_count (res_pdf st1)"
           "r_errors (res_pdf (fst (pdf_tables_loop fname tables (st1, n1)))) = r_errors (res_pdf st1)"
        by blast
      show ?thesis
        unfolding step
        by (rule exI[of _ "new1 @ new2"]) (simp add: a b dedup_feed_append)
    qed
  qed
qed

lemma test_pdf_file_feed:
  "\<exists>new. r_products (res_pdf (test_pdf_file st f)) = r_products (res_pdf st) @ new
        \<and> dedup_map (test_pdf_file st f) = dedup_feed (dedup_map st) new
        \<and> res_json (test_pdf_file st f) = res_json st
        \<and> res_csv (test_pdf_file st f) = res_csv st"
proof -
  have err: "r_products (res_pdf (pdf_add_error s p e)) = r_products (res_pdf s)"
    "dedup_map (pdf_add_error s p e) = dedup_map s"
    "res_json (pdf_add_error s p e) = res_json s"
    "res_csv (pdf_add_error s p e) = res_csv s" for s p e
    by (simp_all add: pdf_add_error_def)
  have cnt: "r_products (res_pdf (pdf_add_count s n)) = r_products (res_pdf s)"
    "dedup_map (pdf_add_count s n) = dedup_map s"
    "res_json (pdf_add_count s n) = res_json s"
    "res_csv (pdf_add_count s n) = res_csv s" for s n
    by (simp_all add: pdf_add_count_def)
  have nil: "\<exists>new. r_products (res_pdf st) = r_products (res_pdf st) @ new
        \<and> dedup_map st = dedup_feed (dedup_map st) new"
    by (rule exI[of _ "[]"]) (simp add: dedup_feed_Nil)
  have loop: "\<exists>new. r_products (res_pdf s') = r_products (res_pdf st) @ new
        \<and> dedup_map s' = dedup_feed (dedup_map st) new
        \<and> res_json s' = res_json st \<and> res_csv s' = res_csv st"
    if "pdf_tables_loop fname tables (st, 0) = (s', c, x)" for fname tables s' c x
    using pdf_tables_loop_feed[of fname tables st 0] that by auto
  show ?thesis
    using nil
    by (auto simp: test_pdf_file_def err cnt pdf_prints_ok
             split: sum.splits prod.splits option.splits dest!: loop)
qed

lemma foldl_test_pdf_file_feed:
  "\<exists>new. r_products (res_pdf (foldl test_pdf_file st fs)) = r_products (res_pdf st) @ new
        \<and> dedup_map (foldl test_pdf_file st fs) = dedup_feed (dedup_map st) new
        \<and> res_json (foldl test_pdf_file st fs) = res_json st
        \<and> res_csv (foldl test_pdf_file st fs) = res_csv st"
proof (induction fs arbitrary: st)
  case Nil
  show ?case by (simp add: dedup_feed_Nil)
next
  case (Cons f fs)
  from test_pdf_file_feed[of st f] obtain n1 where
    a: "r_products (res_pdf (test_pdf_file st f)) = r_products (res_pdf st) @ n1"
       "dedup_map (test_pdf_file st f) = dedup_feed (dedup_map st) n1"
       "res_json (test_pdf_file st f) = res_json st"
       "res_csv (test_pdf_file st f) = res_csv st"
    by blast
  from Cons.IH[of "test_pdf_file st f"] obtain n2 where
    b: "r_products (res_pdf (foldl test_pdf_file (test_pdf_file st f) fs))
          = r_products (res_pdf (test_pdf_file st f)) @ n2"
       "dedup_map (foldl test_pdf_file (test_pdf_file st f) fs)
          = dedup_feed (dedup_map (test_pdf_file st f)) n2"
       "res_json (foldl test_pdf_file (test_pdf_file st f) fs) = res_json (test_pdf_file st f)"
       "res_csv (foldl test_pdf_file (test_pdf_file st f) fs) = res_csv (test_pdf_file st f)"
    by blast
  show ?case
    by (rule exI[of _ "n1 @ n2"]) (simp add: a b dedup_feed_append)
qed

lemma run_dedup_map:
  "dedup_map (run init_tester json_files csv_dir pdf_dir)
     = dedup_feed [] (all_products (run init_tester json_files csv_dir pdf_dir))"
proof -
  let ?s1 = "test_json_catalogs init_tester json_files"
  let ?s2 = "test_csv_catalogs ?s1 csv_dir"
  let ?s3 = "test_pdf_catalogs ?s2 pdf_dir"
  have i: "r_products (res_json init_tester) = []" "r_products (res_csv init_tester) = []"
          "r_products (res_pdf init_tester) = []" "dedup_map init_tester = []"
    by (simp_all add: init_tester_def init_results_def)
  from foldl_test_json_file_feed[of init_tester "take 10 json_files"] obtain n1 where
    a: "r_products (res_json ?s1) = n1" "dedup_map ?s1 = dedup_feed [] n1"
       "res_csv ?s1 = res_csv init_tester" "res_pdf ?s1 = res_pdf init_tester"
    by (auto simp: test_json_catalogs_def i)
  have "\<exists>n2. r_products (res_csv ?s2) = r_products (res_csv ?s1) @ n2
           \<and> dedup_map ?s2 = dedup_feed (dedup_map ?s1) n2
           \<and> res_json ?s2 = res_json ?s1 \<and> res_pdf ?s2 = res_pdf ?s1"
  proof (cases csv_dir)
    case None
    then show ?thesis by (simp add: dedup_feed_Nil)
  next
    case (Some fs)
    then show ?thesis using foldl_test_csv_file_feed[of ?s1 fs] by simp
  qed
  then obtain n2 where
    b: "r_products (res_csv ?s2) = r_products (res_csv ?s1) @ n2"
       "dedup_map ?s2 = dedup_feed (dedup_map ?s1) n2"
       "res_json ?s2 = res_json ?s1" "res_pdf ?s2 = res_pdf ?s1"
    by blast
  have "\<exists>n3. r_products (res_pdf ?s3) = r_products (res_pdf ?s2) @ n3
           \<and> dedup_map ?s3 = dedup_feed (dedup_map ?s2) n3
           \<and> res_json ?s3 = res_json ?s2 \<and> res_csv ?s3 = res_csv ?s2"
  proof (cases pdf_dir)
    case None
    then show ?thesis by (simp add: dedup_feed_Nil)
  next
    case (Some fs)
    then show ?thesis using foldl_test_pdf_file_feed[of ?s2 fs] by simp
  qed
  then obtain n3 where
    c: "r_products (res_pdf ?s3) = r_products (res_pdf ?s2) @ n3"
       "dedup_map ?s3 = dedup_feed (dedup_map ?s2) n3"
       "res_json ?s3 = res_json ?s2" "res_csv ?s3 = res_csv ?s2"
    by blast
  show ?thesis
    by (simp add: run_def all_products_def a b c i dedup_feed_append)
qed

subsection \<open>What one file adds\<close>

lemma json_product_ok:
  "json_record_ok p \<Longrightarrow> \<exists>pr. json_product fname p = Inr pr \<and> hashable (p_id pr)"
  by (cases p) (auto simp: json_record_ok_def json_product_def split: option.splits)

lemma json_product_dict:
  "json_product fname (PDict kvs) =
     Inr \<lparr>p_id = (case map_of kvs (ustr ''id'') of Some v \<Rightarrow> v
                   | None \<Rightarrow> (case map_of kvs (ustr ''name'') of
                                Some v \<Rightarrow> v | None \<Rightarrow> PStr (ustr ''unknown''))),
          p_name = (case map_of kvs (ustr ''name'') of Some v \<Rightarrow> v | None \<Rightarrow> PStr (ustr ''N/A'')),
          p_vendor = (case map_of kvs (ustr ''vendor'') of Some v \<Rightarrow> v | None \<Rightarrow> PStr (ustr ''N/A'')),
          p_source = fname, p_format = ''JSON''\<rparr>"
  by (simp add: json_product_def)

lemma json_loop_ok:
  "list_all json_record_ok ps \<Longrightarrow>
   json_loop fname ps st =
     (st\<lparr>res_json := (res_json st)\<lparr>r_products := r_products (res_json st)
                                       @ map (\<lambda>p. projr (json_product fname p)) ps\<rparr>,
         dedup_map := dedup_feed (dedup_map st) (map (\<lambda>p. projr (json_product fname p)) ps)\<rparr>,
      None)"
proof (induction ps arbitrary: st)
  case Nil
  then show ?case by (simp add: dedup_feed_Nil)
next
  case (Cons p ps)
  from Cons.prems have ok: "json_record_ok p" and rest: "list_all json_record_ok ps" by simp_all
  from json_product_ok[OF ok] obtain pr where
    pr: "json_product fname p = Inr pr" and h: "hashable (p_id pr)" by blast
  note src = json_product_source[OF pr]
  show ?case
    by (simp add: pr h src add_dedup_def Cons.IH[OF rest] json_add_product_def dedup_feed_Cons)
qed

lemma json_catalog_ok_records: "json_catalog_ok data \<Longrightarrow> list_all json_record_ok (json_records data)"
  by (auto simp: json_catalog_ok_def json_records_def split: pyval.splits option.splits)

lemma test_json_file_ok:
  assumes "f_content f = Inr data" and "json_catalog_ok data"
  shows "test_json_file st f =
     (if str_printable (json_catalog_name f data) then (\<lambda>s. s)
      else (\<lambda>s. json_add_error s (f_path f) UnicodeEncodeError))
     (st\<lparr>res_json := (res_json st)\<lparr>
            r_count := r_count (res_json st) + length (json_records data),
            r_products := r_products (res_json st)
               @ map (\<lambda>p. projr (json_product (f_name f) p)) (json_records data)\<rparr>,
         dedup_map := dedup_feed (dedup_map st)
            (map (\<lambda>p. projr (json_product (f_name f) p)) (json_records data))\<rparr>)"
proof -
  from assms(2) obtain kvs where d: "data = PDict kvs"
    by (cases data) (auto simp: json_catalog_ok_def)
  show ?thesis
  proof (cases "map_of kvs (ustr ''products'')")
    case None
    then show ?thesis
      using assms(1) d
      by (simp add: test_json_file_def json_records_def json_add_count_def dedup_feed_Nil
                    json_prints_eq json_catalog_name_def)
  next
    case (Some v)
    with assms(2) d obtain ps where v: "v = PList ps" and ok: "list_all json_record_ok ps"
      by (cases v) (auto simp: json_catalog_ok_def)
    show ?thesis
      using assms(1) d Some v
      by (simp add: test_json_file_def json_records_def json_loop_ok[OF ok] json_add_count_def
                    json_prints_eq json_catalog_name_def)
  qed
qed

lemma dict_row_plain: "(Some k, v) \<in> set (dict_row h r) \<Longrightarrow> plain_cell v"
  by (auto simp: dict_row_def Let_def plain_cell_def split: if_splits dest!: set_zip_rightD)

lemma row_get_plain:
  "plain_cell d \<Longrightarrow> plain_cell (row_get (dict_row h r) k d)"
  by (auto simp: row_get_def split: option.splits dest!: map_of_SomeD dict_row_plain)

lemma plain_hashable: "plain_cell v \<Longrightarrow> hashable v"
  by (cases v) (auto simp: plain_cell_def)

lemma py_or_plain: "plain_cell a \<Longrightarrow> plain_cell b \<Longrightarrow> plain_cell (py_or a b)"
  by (simp add: py_or_def)

lemma plain_cell_simps: "plain_cell PNone" "plain_cell (PStr s)"
  by (simp_all add: plain_cell_def)

lemma csv_product_id_hashable: "hashable (csv_product_id (dict_row h r))"
  by (intro plain_hashable) (simp add: csv_product_id_def py_or_plain row_get_plain plain_cell_simps)

lemma csv_loop_ok:
  "\<forall>row\<in>set rows. hashable (csv_product_id row) \<Longrightarrow>
   csv_loop fname rows st =
     (st\<lparr>res_csv := (res_csv st)\<lparr>r_products := r_products (res_csv st)
                                       @ map (csv_product fname) rows\<rparr>,
         dedup_map := dedup_feed (dedup_map st) (map (csv_product fname) rows)\<rparr>,
      None)"
proof (induction rows arbitrary: st)
  case Nil
  then show ?case by (simp add: dedup_feed_Nil)
next
  case (Cons row rows)
  then have h: "hashable (csv_product_id row)"
    and rest: "\<forall>row\<in>set rows. hashable (csv_product_id row)" by simp_all
  have pid: "p_id (csv_product fname row) = csv_product_id row"
    and src: "p_source (csv_product fname row) = fname" by (simp_all add: csv_product_def)
  show ?case
    by (simp add: Let_def pid src h add_dedup_def Cons.IH[OF rest] csv_add_product_def
                  dedup_feed_Cons)
qed

lemma dict_reader_hashable: "\<forall>row\<in>set (dict_reader lines). hashable (csv_product_id row)"
  by (auto simp: dict_reader_def csv_product_id_hashable split: list.splits)

lemma test_csv_file_ok:
  assumes "f_content f = Inr lines"
  shows "test_csv_file st f =
     st\<lparr>res_csv := (res_csv st)\<lparr>
            r_count := r_count (res_csv st) + length (dict_reader lines),
            r_products := r_products (res_csv st)
               @ map (csv_product (f_name f)) (dict_reader lines)\<rparr>,
        dedup_map := dedup_feed (dedup_map st)
           (map (csv_product (f_name f)) (dict_reader lines))\<rparr>"
  using assms
  by (simp add: test_csv_file_def Let_def csv_loop_ok[OF dict_reader_hashable] csv_add_count_def
                csv_prints_ok)

lemma ustr_eq_Nil: "ustr s = [] \<longleftrightarrow> s = []"
  by (simp add: ustr_def)

lemma json_name_nonempty:
  "json_record_ok p \<Longrightarrow> json_name_given p \<Longrightarrow>
   nonempty_text (p_name (projr (json_product fname p)))"
  by (cases p)
     (auto simp: json_record_ok_def json_name_given_def json_product_dict nonempty_text_def
                 ustr_eq_Nil
           split: option.splits)

lemma plain_truthy: "plain_cell v \<Longrightarrow> truthy v = nonempty_text v"
  by (cases v) (auto simp: plain_cell_def nonempty_text_def)

lemma csv_name_nonempty:
  "csv_name_given (dict_row h r) \<Longrightarrow> nonempty_text (csv_product_id (dict_row h r))"
proof -
  let ?row = "dict_row h r"
  have a: "truthy (row_get ?row k PNone) = nonempty_text (row_get ?row k PNone)" for k
    by (intro plain_truthy row_get_plain plain_cell_simps)
  assume "csv_name_given ?row"
  then show ?thesis
    by (auto simp: csv_name_given_def csv_product_id_def py_or_def a)
qed

lemma dict_reader_rows: "row \<in> set (dict_reader lines) \<Longrightarrow> \<exists>h r. row = dict_row h r"
  by (auto simp: dict_reader_def split: list.splits)

lemma json_add_error_fields:
  "r_count (res_json (json_add_error s p e)) = r_count (res_json s)"
  "r_products (res_json (json_add_error s p e)) = r_products (res_json s)"
  "r_errors (res_json (json_add_error s p e)) = r_errors (res_json s) @ [(p, e)]"
  by (simp_all add: json_add_error_def)

text \<open>
  C1 (amended). For every valid JSON or CSV input file the count added for the file equals
  the number of products appended for it, and the products read before stay as they
  were. A JSON file is valid when it holds an object whose \<^verbatim>\<open>products\<close>, when present, is
  an array of objects with hashable product ids; every CSV file that \<^verbatim>\<open>csv.DictReader\<close>
  reads is valid. Every product of the file has a non-empty name provided no record
  carries an empty name itself: in JSON \<^verbatim>\<open>name\<close> is absent (the placeholder \<^verbatim>\<open>'N/A'\<close> is
  used) or a non-empty string; in CSV \<^verbatim>\<open>Product Name\<close> or \<^verbatim>\<open>Product\<close> is non-empty, or
  \<^verbatim>\<open>id\<close> is absent (the placeholder \<^verbatim>\<open>'unknown'\<close>) or non-empty.
\<close>

theorem C1_count_matches_products:
  "(f_content jf = Inr data \<longrightarrow> json_catalog_ok data \<longrightarrow>
      r_count (res_json (test_json_file st jf))
        = r_count (res_json st) + length (json_records data)
    \<and> length (r_products (res_json (test_json_file st jf)))
        = length (r_products (res_json st)) + length (json_records data)
    \<and> take (length (r_products (res_json st))) (r_products (res_json (test_json_file st jf)))
        = r_products (res_json st)
    \<and> (list_all json_name_given (json_records data) \<longrightarrow>
         list_all (\<lambda>p. nonempty_text (p_name p))
           (drop (length (r_products (res_json st)))
                 (r_products (res_json (test_json_file st jf))))))
 \<and> (f_content cf = Inr lines \<longrightarrow>
      r_count (res_csv (test_csv_file st cf))
        = r_count (res_csv st) + length (dict_reader lines)
    \<and> length (r_products (res_csv (test_csv_file st cf)))
        = length (r_products (res_csv st)) + length (dict_reader lines)
    \<and> take (length (r_products (res_csv st))) (r_products (res_csv (test_csv_file st cf)))
        = r_products (res_csv st)
    \<and> (list_all csv_name_given (dict_reader lines) \<longrightarrow>
         list_all (\<lambda>p. nonempty_text (p_name p))
           (drop (length (r_products (res_csv st)))
                 (r_products (res_csv (test_csv_file st cf))))))"
proof (intro conjI impI)
  assume c: "f_content jf = Inr data" and ok: "json_catalog_ok data"
  note eq = test_json_file_ok[OF c ok, of st]
  show "r_count (res_json (test_json_file st jf))
        = r_count (res_json st) + length (json_records data)"
    by (simp add: eq json_add_error_fields)
  show "length (r_products (res_json (test_json_file st jf)))
        = length (r_products (res_json st)) + length (json_records data)"
    by (simp add: eq json_add_error_fields)
  show "take (length (r_products (res_json st))) (r_products (res_json (test_json_file st jf)))
        = r_products (res_json st)"
    by (simp add: eq json_add_error_fields)
  note recs = json_catalog_ok_records[OF ok]
  assume "list_all json_name_given (json_records data)"
  with recs show "list_all (\<lambda>p. nonempty_text (p_name p))
           (drop (length (r_products (res_json st)))
                 (r_products (res_json (test_json_file st jf))))"
    by (simp add: eq json_add_error_fields list_all_iff json_name_nonempty)
next
  assume c: "f_content cf = Inr lines"
  note eq = test_csv_file_ok[OF c, of st]
  show "r_count (res_csv (test_csv_file st cf))
        = r_count (res_csv st) + length (dict_reader lines)"
    by (simp add: eq)
  show "length (r_products (res_csv (test_csv_file st cf)))
        = length (r_products (res_csv st)) + length (dict_reader lines)"
    by (simp add: eq)
  show "take (length (r_products (res_csv st))) (r_products (res_csv (test_csv_file st cf)))
        = r_products (res_csv st)"
    by (simp add: eq)
  assume given: "list_all csv_name_given (dict_reader lines)"
  have "nonempty_text (csv_product_id row)" if "row \<in> set (dict_reader lines)" for row
  proof -
    from that obtain h r where "row = dict_row h r"
      using dict_reader_rows by blast
    moreover from that given have "csv_name_given row"
      by (simp add: list_all_iff)
    ultimately show ?thesis
      using csv_name_nonempty by blast
  qed
  then show "list_all (\<lambda>p. nonempty_text (p_name p))
           (drop (length (r_products (res_csv st)))
                 (r_products (res_csv (test_csv_file st cf))))"
    by (simp add: eq list_all_iff csv_product_def)
qed

text \<open>
  C1 as stated fails on two payloads that parse. A catalog whose record has
  \<^verbatim>\<open>"name": ""\<close> yields a product with the empty name, counted like any other. A catalog
  of three records whose second \<^verbatim>\<open>id\<close> is a JSON array is counted as 3, because the
  count is raised by \<^verbatim>\<open>len(products)\<close> before the loop, while \<^verbatim>\<open>_add_dedup\<close> raises
  \<^verbatim>\<open>TypeError\<close> on the second record: two products are returned, the third record is
  never read, and the file is recorded as an error.
\<close>

theorem C1_empty_name_counterexample:
  "f_content ex_json_blank_name_file = Inr ex_blank_name_catalog
   \<and> json_catalog_ok ex_blank_name_catalog
   \<and> r_count (res_json (test_json_file init_tester ex_json_blank_name_file)) = 1
   \<and> map p_name (r_products (res_json (test_json_file init_tester ex_json_blank_name_file)))
       = [PStr []]
   \<and> f_content ex_json_list_id_file = Inr ex_list_id_catalog
   \<and> r_count (res_json (test_json_file init_tester ex_json_list_id_file)) = 3
   \<and> map p_name (r_products (res_json (test_json_file init_tester ex_json_list_id_file)))
       = [PStr (ustr ''Alpha''), PStr (ustr ''Beta'')]
   \<and> r_errors (res_json (test_json_file init_tester ex_json_list_id_file))
       = [(''catalogs/list_id_catalog.json'', TypeError)]"
  by code_simp

theorem C1_count_matches_products_witness:
  "f_content ex_json_file = Inr ex_json_catalog
   \<and> json_catalog_ok ex_json_catalog
   \<and> list_all json_name_given (json_records ex_json_catalog)
   \<and> f_content ex_csv_file = Inr (ex_csv_header # ex_csv_body)
   \<and> list_all csv_name_given (dict_reader (ex_csv_header # ex_csv_body))
   \<and> r_count (res_json (test_json_file init_tester ex_json_file)) = 2
   \<and> length (r_products (res_json (test_json_file init_tester ex_json_file))) = 2
   \<and> list_all (\<lambda>p. nonempty_text (p_name p))
         (r_products (res_json (test_json_file init_tester ex_json_file)))
   \<and> r_count (res_csv (test_csv_file init_tester ex_csv_file)) = 8
   \<and> length (r_products (res_csv (test_csv_file init_tester ex_csv_file))) = 8
   \<and> list_all (\<lambda>p. nonempty_text (p_name p))
         (r_products (res_csv (test_csv_file init_tester ex_csv_file)))"
proof -
  have h1: "f_content ex_json_file = Inr ex_json_catalog" by (simp add: ex_json_file_def)
  have h2: "json_catalog_ok ex_json_catalog" by code_simp
  have h3: "list_all json_name_given (json_records ex_json_catalog)" by code_simp
  have h4: "f_content ex_csv_file = Inr (ex_csv_header # ex_csv_body)"
    by (simp add: ex_csv_file_def)
  have h5: "list_all csv_name_given (dict_reader (ex_csv_header # ex_csv_body))" by code_simp
  have n1: "length (json_records ex_json_catalog) = 2" by code_simp
  have n2: "length (dict_reader (ex_csv_header # ex_csv_body)) = 8" by code_simp
  have i1: "r_count (res_json init_tester) = 0" "r_products (res_json init_tester) = []"
           "r_count (res_csv init_tester) = 0" "r_products (res_csv init_tester) = []"
    by (simp_all add: init_tester_def init_results_def)
  show ?thesis
    using C1_count_matches_products
            [of ex_json_file ex_json_catalog init_tester ex_csv_file "ex_csv_header # ex_csv_body"]
          h1 h2 h3 h4 h5
    by (simp add: n1 n2 i1)
qed

subsection \<open>CSV rows\<close>

text \<open>
  C3 (amended). For every CSV input no data row is skipped for its column count and no
  error is recorded for it: every non-blank row after the header, whatever its length,
  yields one product, in order, and the count grows by the number of these rows. So a
  CSV with 7 good rows and 1 row of the wrong length yields 8 products, no error
  and a count of 8.
\<close>

theorem C3_no_row_is_skipped:
  assumes "f_content f = Inr (fieldnames # body)"
  shows "r_count (res_csv (test_csv_file st f))
           = r_count (res_csv st) + length (filter (\<lambda>r. r \<noteq> []) body)
       \<and> r_products (res_csv (test_csv_file st f))
           = r_products (res_csv st)
             @ map (\<lambda>r. csv_product (f_name f) (dict_row fieldnames r))
                   (filter (\<lambda>r. r \<noteq> []) body)
       \<and> r_errors (res_csv (test_csv_file st f)) = r_errors (res_csv st)"
  by (simp add: test_csv_file_ok[OF assms] dict_reader_def comp_def)

text \<open>
  C3 as stated fails: of the eight data rows of the example seven have the header's three
  columns and one has two; eight products come out, the count is 8, and no error.
\<close>

theorem C3_malformed_row_counterexample:
  "f_content ex_csv_file = Inr (ex_csv_header # ex_csv_body)
   \<and> length (filter (\<lambda>r. length r = length ex_csv_header) ex_csv_body) = 7
   \<and> length (filter (\<lambda>r. length r \<noteq> length ex_csv_header) ex_csv_body) = 1
   \<and> length (r_products (res_csv (test_csv_file init_tester ex_csv_file))) = 8
   \<and> r_count (res_csv (test_csv_file init_tester ex_csv_file)) = 8
   \<and> r_errors (res_csv (test_csv_file init_tester ex_csv_file)) = []"
  by code_simp

theorem C3_no_row_is_skipped_witness:
  "f_content ex_csv_file = Inr (ex_csv_header # ex_csv_body)
   \<and> r_count (res_csv (test_csv_file init_tester ex_csv_file)) = 8
   \<and> map p_name (r_products (res_csv (test_csv_file init_tester ex_csv_file)))
       = map (\<lambda>s. PStr (ustr s))
           [''Google Pixel 8 Pro'', ''HP Spectre x360'', ''Microsoft Surface Pro 10'',
            ''Dell XPS 13'', ''Sony WH-1000XM5'', ''Samsung Galaxy S24'',
            ''Lenovo ThinkPad X1'', ''Apple MacBook Air'']
   \<and> r_errors (res_csv (test_csv_file init_tester ex_csv_file)) = []"
proof -
  have h: "f_content ex_csv_file = Inr (ex_csv_header # ex_csv_body)"
    by (simp add: ex_csv_file_def)
  have n: "length (filter (\<lambda>r. r \<noteq> []) ex_csv_body) = 8" by code_simp
  have i: "r_count (res_csv init_tester) = 0" "r_products (res_csv init_tester) = []"
          "r_errors (res_csv init_tester) = []"
    by (simp_all add: init_tester_def init_results_def)
  have names: "map (\<lambda>r. p_name (csv_product (f_name ex_csv_file) (dict_row ex_csv_header r)))
                   (filter (\<lambda>r. r \<noteq> []) ex_csv_body)
       = map (\<lambda>s. PStr (ustr s))
           [''Google Pixel 8 Pro'', ''HP Spectre x360'', ''Microsoft Surface Pro 10'',
            ''Dell XPS 13'', ''Sony WH-1000XM5'', ''Samsung Galaxy S24'',
            ''Lenovo ThinkPad X1'', ''Apple MacBook Air'']"
    by code_simp
  note t = C3_no_row_is_skipped [OF h, of init_tester]
  have c1: "r_count (res_csv (test_csv_file init_tester ex_csv_file)) = 8"
    using t [THEN conjunct1] by (simp add: n i)
  have c2: "map p_name (r_products (res_csv (test_csv_file init_tester ex_csv_file)))
       = map (\<lambda>s. PStr (ustr s))
           [''Google Pixel 8 Pro'', ''HP Spectre x360'', ''Microsoft Surface Pro 10'',
            ''Dell XPS 13'', ''Sony WH-1000XM5'', ''Samsung Galaxy S24'',
            ''Lenovo ThinkPad X1'', ''Apple MacBook Air'']"
    unfolding t [THEN conjunct2, THEN conjunct1] i using names by (simp add: comp_def)
  have c3: "r_errors (res_csv (test_csv_file init_tester ex_csv_file)) = []"
    using t [THEN conjunct2, THEN conjunct2] by (simp add: i)
  show ?thesis using h c1 c2 c3 by (intro conjI)
qed

subsection \<open>Payloads without products\<close>

text \<open>
  C10 (amended). A payload that parses as a JSON object without a \<^verbatim>\<open>products\<close> key is
  an empty catalog: reading it adds no product and nothing to the count or the dedup
  map, and \<^verbatim>\<open>measure_json_extraction\<close> counts 0 products for it. No error is recorded
  for the file (the tester's state is the one before the file) provided the catalog
  name printed for it, its \<^verbatim>\<open>catalog_name\<close> or else the file's name, can be encoded by
  the output stream.
\<close>

theorem C10_missing_products_is_empty_catalog:
  assumes "f_content f = Inr (PDict kvs)"
      and "map_of kvs (ustr ''products'') = None"
  shows "r_products (res_json (test_json_file st f)) = r_products (res_json st)
       \<and> r_count (res_json (test_json_file st f)) = r_count (res_json st)
       \<and> dedup_map (test_json_file st f) = dedup_map st
       \<and> (str_printable (json_catalog_name f (PDict kvs)) \<longrightarrow> test_json_file st f = st)
       \<and> measure_json_count (PDict kvs) = Inr 0"
  using assms
  by (simp add: test_json_file_def json_add_count_def json_add_error_def measure_json_count_def
                json_prints_eq json_catalog_name_def)

text \<open>
  C10 as stated fails: the payload \<^verbatim>\<open>{"catalog_name": "\ud800"}\<close> has no \<^verbatim>\<open>products\<close>
  key and yields no product, but \<^verbatim>\<open>print\<close> raises \<^verbatim>\<open>UnicodeEncodeError\<close> on its catalog
  name inside the \<^verbatim>\<open>try\<close>, and the handler records the file as an error.
\<close>

theorem C10_unprintable_name_counterexample:
  "f_content ex_json_surrogate_file = Inr (PDict [(ustr ''catalog_name'', PStr [55296])])
   \<and> map_of [(ustr ''catalog_name'', PStr [55296])] (ustr ''products'') = None
   \<and> r_products (res_json (test_json_file init_tester ex_json_surrogate_file)) = []
   \<and> r_errors (res_json (test_json_file init_tester ex_json_surrogate_file))
       = [(''catalogs/surrogate_catalog.json'', UnicodeEncodeError)]"
  by code_simp

theorem C10_missing_products_witness:
  "f_content ex_json_empty_file = Inr (PDict [(ustr ''catalog_name'', PStr (ustr ''Empty''))])
   \<and> map_of [(ustr ''catalog_name'', PStr (ustr ''Empty''))] (ustr ''products'') = None
   \<and> str_printable (json_catalog_name ex_json_empty_file
                       (PDict [(ustr ''catalog_name'', PStr (ustr ''Empty''))]))
   \<and> test_json_file init_tester ex_json_empty_file = init_tester
   \<and> measure_json_count (PDict [(ustr ''catalog_name'', PStr (ustr ''Empty''))]) = Inr 0"
proof -
  let ?kvs = "[(ustr ''catalog_name'', PStr (ustr ''Empty''))]"
  have h1: "f_content ex_json_empty_file = Inr (PDict ?kvs)"
    by (simp add: ex_json_empty_file_def ex_empty_catalog_def)
  have h2: "map_of ?kvs (ustr ''products'') = None" by code_simp
  have h3: "str_printable (json_catalog_name ex_json_empty_file (PDict ?kvs))"
    by (simp add: json_catalog_name_def print_ok_ustr)
  note t = C10_missing_products_is_empty_catalog [OF h1 h2, of init_tester]
  have c1: "test_json_file init_tester ex_json_empty_file = init_tester"
    using t h3 by blast
  have c2: "measure_json_count (PDict ?kvs) = Inr 0"
    using t by blast
  show ?thesis using h1 h2 h3 c1 c2 by (intro conjI)
qed

subsection \<open>Records without a name\<close>

text \<open>
  C8 (amended). A record whose name cannot be resolved is not failed: every record of a
  valid file yields a product, at the record's own position, and no error is recorded
  for it. The name of the product of a JSON record is the value under \<^verbatim>\<open>name\<close> as it
  is, the empty string and \<^verbatim>\<open>None\<close> included, and the placeholder \<^verbatim>\<open>'N/A'\<close> only when
  the record has no \<^verbatim>\<open>name\<close> key. The name of the product of a CSV row with no
  non-empty \<^verbatim>\<open>Product Name\<close> or \<^verbatim>\<open>Product\<close> is the row's \<^verbatim>\<open>id\<close> field as it is, the
  empty string and the \<^verbatim>\<open>None\<close> of a short row included, and the placeholder
  \<^verbatim>\<open>'unknown'\<close> only when the file has no \<^verbatim>\<open>id\<close> column. The error list of a CSV file
  stays as it was; that of a JSON file does when the file's catalog name can be
  printed.
\<close>

theorem C8_nameless_record_is_emitted:
  "(f_content jf = Inr data \<longrightarrow> json_catalog_ok data \<longrightarrow>
    i < length (json_records data) \<longrightarrow> json_records data ! i = PDict kvs \<longrightarrow>
      p_name (r_products (res_json (test_json_file st jf))
                ! (length (r_products (res_json st)) + i))
        = (case map_of kvs (ustr ''name'') of None \<Rightarrow> PStr (ustr ''N/A'') | Some v \<Rightarrow> v)
    \<and> length (r_products (res_json (test_json_file st jf)))
        = length (r_products (res_json st)) + length (json_records data)
    \<and> (str_printable (json_catalog_name jf data) \<longrightarrow>
         r_errors (res_json (test_json_file st jf)) = r_errors (res_json st)))
 \<and> (f_content cf = Inr lines \<longrightarrow> j < length (dict_reader lines) \<longrightarrow>
    \<not> truthy (row_get (dict_reader lines ! j) (ustr ''Product Name'') PNone) \<longrightarrow>
    \<not> truthy (row_get (dict_reader lines ! j) (ustr ''Product'') PNone) \<longrightarrow>
      p_name (r_products (res_csv (test_csv_file st cf))
                ! (length (r_products (res_csv st)) + j))
        = (case map_of (rev (dict_reader lines ! j)) (Some (ustr ''id'')) of
             None \<Rightarrow> PStr (ustr ''unknown'') | Some v \<Rightarrow> v)
    \<and> length (r_products (res_csv (test_csv_file st cf)))
        = length (r_products (res_csv st)) + length (dict_reader lines)
    \<and> r_errors (res_csv (test_csv_file st cf)) = r_errors (res_csv st))"
proof (intro conjI impI)
  assume c: "f_content jf = Inr data" and ok: "json_catalog_ok data"
    and i: "i < length (json_records data)" and r: "json_records data ! i = PDict kvs"
  note eq = test_json_file_ok[OF c ok, of st]
  show "p_name (r_products (res_json (test_json_file st jf))
                ! (length (r_products (res_json st)) + i))
        = (case map_of kvs (ustr ''name'') of None \<Rightarrow> PStr (ustr ''N/A'') | Some v \<Rightarrow> v)"
    using i r by (simp add: eq json_add_error_fields nth_append json_product_dict)
  show "length (r_products (res_json (test_json_file st jf)))
        = length (r_products (res_json st)) + length (json_records data)"
    by (simp add: eq json_add_error_fields)
  assume "str_printable (json_catalog_name jf data)"
  then show "r_errors (res_json (test_json_file st jf)) = r_errors (res_json st)"
    by (simp add: eq)
next
  assume c: "f_content cf = Inr lines" and j: "j < length (dict_reader lines)"
    and a: "\<not> truthy (row_get (dict_reader lines ! j) (ustr ''Product Name'') PNone)"
    and b: "\<not> truthy (row_get (dict_reader lines ! j) (ustr ''Product'') PNone)"
  note eq = test_csv_file_ok[OF c, of st]
  show "p_name (r_products (res_csv (test_csv_file st cf))
                ! (length (r_products (res_csv st)) + j))
        = (case map_of (rev (dict_reader lines ! j)) (Some (ustr ''id'')) of
             None \<Rightarrow> PStr (ustr ''unknown'') | Some v \<Rightarrow> v)"
    using j a b
    by (simp add: eq nth_append csv_product_def csv_product_id_def py_or_def row_get_def
             split: option.splits)
  show "length (r_products (res_csv (test_csv_file st cf)))
        = length (r_products (res_csv st)) + length (dict_reader lines)"
    by (simp add: eq)
  show "r_errors (res_csv (test_csv_file st cf)) = r_errors (res_csv st)"
    by (simp add: eq)
qed

text \<open>
  C8 as stated fails: the record without a name comes out as a product named \<^verbatim>\<open>N/A\<close>,
  and the file's error list stays empty.
\<close>

theorem C8_placeholder_counterexample:
  "f_content ex_json_no_name_file = Inr ex_no_name_catalog
   \<and> json_catalog_ok ex_no_name_catalog
   \<and> r_products (res_json (test_json_file init_tester ex_json_no_name_file))
       = [\<lparr>p_id = PStr (ustr ''unknown''), p_name = PStr (ustr ''N/A''),
           p_vendor = PStr (ustr ''Acme''),
           p_source = ''no_name_catalog.json'', p_format = ''JSON''\<rparr>]
   \<and> r_errors (res_json (test_json_file init_tester ex_json_no_name_file)) = []"
  by code_simp

theorem C8_nameless_record_witness:
  "f_content ex_json_blank_name_file = Inr ex_blank_name_catalog
   \<and> json_catalog_ok ex_blank_name_catalog
   \<and> (0::nat) < length (json_records ex_blank_name_catalog)
   \<and> json_records ex_blank_name_catalog ! 0
       = PDict [(ustr ''name'', PStr []), (ustr ''vendor'', PStr (ustr ''Acme''))]
   \<and> str_printable (json_catalog_name ex_json_blank_name_file ex_blank_name_catalog)
   \<and> p_name (r_products (res_json (test_json_file init_tester ex_json_blank_name_file)) ! 0)
       = PStr []
   \<and> length (r_products (res_json (test_json_file init_tester ex_json_blank_name_file))) = 1
   \<and> r_errors (res_json (test_json_file init_tester ex_json_blank_name_file)) = []
   \<and> f_content ex_service_file = Inr (ex_service_header # ex_service_body)
   \<and> (0::nat) < length (dict_reader (ex_service_header # ex_service_body))
   \<and> map_of (rev (dict_reader (ex_service_header # ex_service_body) ! 0)) (Some (ustr ''id''))
       = None
   \<and> p_name (r_products (res_csv (test_csv_file init_tester ex_service_file)) ! 0)
       = PStr (ustr ''unknown'')
   \<and> r_errors (res_csv (test_csv_file init_tester ex_service_file)) = []"
proof -
  let ?lines = "ex_service_header # ex_service_body"
  let ?kvs = "[(ustr ''name'', PStr []), (ustr ''vendor'', PStr (ustr ''Acme''))]"
  have h1: "f_content ex_json_blank_name_file = Inr ex_blank_name_catalog"
    by (simp add: ex_json_blank_name_file_def)
  have h2: "json_catalog_ok ex_blank_name_catalog" by code_simp
  have h3: "(0::nat) < length (json_records ex_blank_name_catalog)" by code_simp
  have h3': "length (json_records ex_blank_name_catalog) = 1" by code_simp
  have h4: "json_records ex_blank_name_catalog ! 0 = PDict ?kvs" by code_simp
  have h5: "str_printable (json_catalog_name ex_json_blank_name_file ex_blank_name_catalog)"
    by code_simp
  have h6: "map_of ?kvs (ustr ''name'') = Some (PStr [])" by code_simp
  have g1: "f_content ex_service_file = Inr ?lines" by (simp add: ex_service_file_def)
  have g2: "(0::nat) < length (dict_reader ?lines)" by code_simp
  have g3: "\<not> truthy (row_get (dict_reader ?lines ! 0) (ustr ''Product Name'') PNone)"
    by code_simp
  have g4: "\<not> truthy (row_get (dict_reader ?lines ! 0) (ustr ''Product'') PNone)" by code_simp
  have g5: "map_of (rev (dict_reader ?lines ! 0)) (Some (ustr ''id'')) = None" by code_simp
  have i: "r_products (res_json init_tester) = []" "r_errors (res_json init_tester) = []"
          "r_products (res_csv init_tester) = []" "r_errors (res_csv init_tester) = []"
    by (simp_all add: init_tester_def init_results_def)
  note t = C8_nameless_record_is_emitted
             [of ex_json_blank_name_file ex_blank_name_catalog 0 ?kvs
                 init_tester ex_service_file ?lines 0]
  have c1: "p_name (r_products (res_json (test_json_file init_tester ex_json_blank_name_file)) ! 0)
       = PStr []"
    using t [THEN conjunct1] h1 h2 h3 h4 h5 by (simp add: i h6)
  have c2: "length (r_products (res_json (test_json_file init_tester ex_json_blank_name_file))) = 1"
    using t [THEN conjunct1] h1 h2 h3 h4 h5 by (simp add: i h3')
  have c3: "r_errors (res_json (test_json_file init_tester ex_json_blank_name_file)) = []"
    using t [THEN conjunct1] h1 h2 h3 h4 h5 by (simp add: i)
  have c4: "p_name (r_products (res_csv (test_csv_file init_tester ex_service_file)) ! 0)
       = PStr (ustr ''unknown'')"
    using t [THEN conjunct2] g1 g2 g3 g4 by (simp add: i g5)
  have c5: "r_errors (res_csv (test_csv_file init_tester ex_service_file)) = []"
    using t [THEN conjunct2] g1 g2 g3 g4 by (simp add: i)
  show ?thesis
    using h1 h2 h3 h4 h5 g1 g2 g5 c1 c2 c3 c4 c5 by (intro conjI)
qed

subsection \<open>Deduplication\<close>

text \<open>
  C2 (amended). Deduplication keys on the product id alone (in JSON the \<^verbatim>\<open>id\<close>, else
  the \<^verbatim>\<open>name\<close>; in CSV and PDF the name), compared exactly, and never looks at the
  vendor. After a run over any JSON, CSV and PDF files, whenever exactly two of the
  products the run returned carry the id \<open>k\<close>, from the sources \<open>s1\<close> and \<open>s2\<close>, the
  dedup map holds them as one entry with exactly these two members; a product whose
  id \<open>k'\<close> no other product carries forms an entry of one. The ids are hashable ones:
  on any other id \<^verbatim>\<open>_add_dedup\<close> raises and stores nothing.
\<close>

theorem C2_same_id_one_cluster:
  assumes "hashable k" and "hashable k'"
      and "sources_of k (all_products (run init_tester json_files csv_dir pdf_dir)) = [s1, s2]"
      and "sources_of k' (all_products (run init_tester json_files csv_dir pdf_dir)) = [s3]"
  shows "dmap_lookup (dedup_map (run init_tester json_files csv_dir pdf_dir)) k = Some [s1, s2]
       \<and> dmap_lookup (dedup_map (run init_tester json_files csv_dir pdf_dir)) k' = Some [s3]"
proof -
  have m: "dedup_map (run init_tester json_files csv_dir pdf_dir)
     = dedup_feed [] (all_products (run init_tester json_files csv_dir pdf_dir))"
    by (rule run_dedup_map)
  show ?thesis
    unfolding m
    by (simp add: dmap_lookup_feed[OF assms(1)] dmap_lookup_feed[OF assms(2)]
                  dmap_lookup_Nil assms(3) assms(4))
qed

theorem C2_same_id_one_cluster_witness:
  "hashable (PStr (ustr ''HP Spectre x360'')) \<and> hashable (PStr (ustr ''Dell XPS 13''))
   \<and> sources_of (PStr (ustr ''HP Spectre x360''))
        (all_products (run init_tester [ex_json_file] (Some [ex_csv_file]) (Some [ex_pdf_file])))
     = [''extended_electronics_catalog.json'', ''electronics_products.csv'']
   \<and> sources_of (PStr (ustr ''Dell XPS 13''))
        (all_products (run init_tester [ex_json_file] (Some [ex_csv_file]) (Some [ex_pdf_file])))
     = [''electronics_products.csv'']
   \<and> dmap_lookup (dedup_map (run init_tester [ex_json_file] (Some [ex_csv_file])
                                 (Some [ex_pdf_file])))
        (PStr (ustr ''HP Spectre x360''))
     = Some [''extended_electronics_catalog.json'', ''electronics_products.csv'']
   \<and> dmap_lookup (dedup_map (run init_tester [ex_json_file] (Some [ex_csv_file])
                                 (Some [ex_pdf_file])))
        (PStr (ustr ''Dell XPS 13''))
     = Some [''electronics_products.csv'']"
proof -
  let ?r = "run init_tester [ex_json_file] (Some [ex_csv_file]) (Some [ex_pdf_file])"
  have h1: "hashable (PStr (ustr ''HP Spectre x360''))" by simp
  have h2: "hashable (PStr (ustr ''Dell XPS 13''))" by simp
  have h3: "sources_of (PStr (ustr ''HP Spectre x360'')) (all_products ?r)
     = [''extended_electronics_catalog.json'', ''electronics_products.csv'']"
    by code_simp
  have h4: "sources_of (PStr (ustr ''Dell XPS 13'')) (all_products ?r)
     = [''electronics_products.csv'']"
    by code_simp
  note t = C2_same_id_one_cluster [OF h1 h2 h3 h4]
  show ?thesis
    using h1 h2 h3 h4 t [THEN conjunct1] t [THEN conjunct2] by (intro conjI)
qed

text \<open>
  C2 as stated fails: the JSON catalog and the CSV file both hold a product named
  \<^verbatim>\<open>Google Pixel 8 Pro\<close> of the vendor \<^verbatim>\<open>Google\<close>, but the JSON record has its own
  \<^verbatim>\<open>id\<close>, so after the run the two stay in two entries of one member each. Only the
  product that both files identify by the same text is reported as a duplicate.
\<close>

theorem C2_same_name_counterexample:
  "map p_name (r_products (res_json (run init_tester [ex_json_file] (Some [ex_csv_file]) None)))
     = [PStr (ustr ''Google Pixel 8 Pro''), PStr (ustr ''HP Spectre x360'')]
   \<and> map p_vendor (r_products (res_json
         (run init_tester [ex_json_file] (Some [ex_csv_file]) None)))
     = [PStr (ustr ''Google''), PStr (ustr ''HP'')]
   \<and> p_name (hd (r_products (res_csv
         (run init_tester [ex_json_file] (Some [ex_csv_file]) None))))
     = PStr (ustr ''Google Pixel 8 Pro'')
   \<and> p_vendor (hd (r_products (res_csv
         (run init_tester [ex_json_file] (Some [ex_csv_file]) None))))
     = PStr (ustr ''Google'')
   \<and> dmap_lookup (dedup_map (run init_tester [ex_json_file] (Some [ex_csv_file]) None))
         (PStr (ustr ''px8p'')) = Some [''extended_electronics_catalog.json'']
   \<and> dmap_lookup (dedup_map (run init_tester [ex_json_file] (Some [ex_csv_file]) None))
         (PStr (ustr ''Google Pixel 8 Pro'')) = Some [''electronics_products.csv'']
   \<and> duplicates (run init_tester [ex_json_file] (Some [ex_csv_file]) None)
     = [(PStr (ustr ''HP Spectre x360''),
         [''extended_electronics_catalog.json'', ''electronics_products.csv''])]"
  by code_simp

subsection \<open>Files that cannot be read\<close>

lemma json_add_product_errors:
  "r_errors (res_json (json_add_product st p)) = r_errors (res_json st)"
  by (simp add: json_add_product_def)

lemma add_dedup_res_json: "add_dedup st k s = Inr st' \<Longrightarrow> res_json st' = res_json st"
  by (auto simp: add_dedup_def split: if_splits)

lemma json_loop_errors:
  "r_errors (res_json (fst (json_loop fname ps st))) = r_errors (res_json st)"
proof (induction ps arbitrary: st)
  case Nil
  then show ?case by simp
next
  case (Cons p ps)
  show ?case
    by (auto simp: Cons.IH json_add_product_errors split: sum.splits dest!: add_dedup_res_json)
qed

lemma test_json_file_errors:
  "\<exists>es. r_errors (res_json (test_json_file st f)) = r_errors (res_json st) @ es"
proof -
  have a: "r_errors (res_json (json_add_error s p e)) = r_errors (res_json s) @ [(p, e)]" for s p e
    by (simp add: json_add_error_def)
  have b: "r_errors (res_json (json_add_count s n)) = r_errors (res_json s)" for s n
    by (simp add: json_add_count_def)
  have c: "r_errors (res_json s') = r_errors (res_json (json_add_count st n))"
    if "json_loop fname ps (json_add_count st n) = (s', x)" for fname ps n s' x
    using json_loop_errors[of fname ps "json_add_count st n"] that by simp
  show ?thesis
    by (auto simp: test_json_file_def a b split: sum.splits prod.splits option.splits dest!: c)
qed

lemma foldl_test_json_file_errors:
  "\<exists>es. r_errors (res_json (foldl test_json_file st fs)) = r_errors (res_json st) @ es"
proof (induction fs arbitrary: st)
  case Nil
  then show ?case by simp
next
  case (Cons f fs)
  from Cons.IH[of "test_json_file st f"] test_json_file_errors[of st f]
  show ?case by auto
qed

lemma take_ten_split:
  assumes "i < length xs" and "i < 10"
  shows "take 10 xs = take i xs @ xs ! i # take (9 - i) (drop (Suc i) xs)"
proof -
  have "take 10 xs = take (i + (10 - i)) xs" using assms by simp
  also have "\<dots> = take i xs @ take (10 - i) (drop i xs)" by (simp only: take_add)
  also have "drop i xs = xs ! i # drop (Suc i) xs" using assms by (simp add: Cons_nth_drop_Suc)
  also have "take (10 - i) (xs ! i # drop (Suc i) xs) = xs ! i # take (9 - i) (drop (Suc i) xs)"
  proof -
    have "10 - i = Suc (9 - i)" using assms by simp
    then show ?thesis by (simp only: take_Suc_Cons)
  qed
  finally show ?thesis .
qed

text \<open>
  C4 (amended). For every JSON file among the first ten found whose load fails, the read
  of that file ends with a single error entry (the file's path and the exception), the
  file adds no product, nothing to the count and nothing to the dedup map, the loop goes
  on with the files after it (up to the tenth), and the entry is still in the error list
  at the end of the run. A file beyond the first ten is never read.
\<close>

theorem C4_unreadable_file_is_one_error:
  assumes "i < length json_files" and "i < 10" and "f_content (json_files ! i) = Inl e"
  shows "test_json_file s (json_files ! i)
           = s\<lparr>res_json := (res_json s)\<lparr>r_errors := r_errors (res_json s)
                                               @ [(f_path (json_files ! i), e)]\<rparr>\<rparr>
       \<and> test_json_catalogs st json_files
           = foldl test_json_file
               (test_json_file (foldl test_json_file st (take i json_files)) (json_files ! i))
               (take (9 - i) (drop (Suc i) json_files))
       \<and> (f_path (json_files ! i), e) \<in> set (r_errors (res_json (test_json_catalogs st json_files)))"
proof (intro conjI)
  show one: "test_json_file s (json_files ! i)
           = s\<lparr>res_json := (res_json s)\<lparr>r_errors := r_errors (res_json s)
                                               @ [(f_path (json_files ! i), e)]\<rparr>\<rparr>" for s
    using assms(3) by (simp add: test_json_file_def json_add_error_def)
  show run: "test_json_catalogs st json_files
           = foldl test_json_file
               (test_json_file (foldl test_json_file st (take i json_files)) (json_files ! i))
               (take (9 - i) (drop (Suc i) json_files))"
    by (simp add: test_json_catalogs_def take_ten_split[OF assms(1,2)])
  let ?mid = "test_json_file (foldl test_json_file st (take i json_files)) (json_files ! i)"
  have "(f_path (json_files ! i), e) \<in> set (r_errors (res_json ?mid))"
    by (simp add: one)
  moreover obtain es where
    "r_errors (res_json (foldl test_json_file ?mid (take (9 - i) (drop (Suc i) json_files))))
       = r_errors (res_json ?mid) @ es"
    using foldl_test_json_file_errors by blast
  ultimately show "(f_path (json_files ! i), e)
       \<in> set (r_errors (res_json (test_json_catalogs st json_files)))"
    by (simp add: run)
qed

text \<open>
  C4 as stated fails: an unreadable file in eleventh place is not read at all, and the
  error list of the run stays empty.
\<close>

theorem C4_eleventh_file_counterexample:
  "f_content ex_json_broken_file = Inl (LoadError ''Expecting value: line 1 column 1 (char 0)'')
   \<and> r_errors (res_json (test_json_catalogs init_tester
         (replicate 10 ex_json_empty_file @ [ex_json_broken_file]))) = []"
  by code_simp

theorem C4_unreadable_file_witness:
  "(0::nat) < length [ex_json_broken_file, ex_json_file]
   \<and> (0::nat) < 10
   \<and> f_content ([ex_json_broken_file, ex_json_file] ! 0)
       = Inl (LoadError ''Expecting value: line 1 column 1 (char 0)'')
   \<and> test_json_file init_tester ex_json_broken_file
       = init_tester\<lparr>res_json := (res_json init_tester)\<lparr>r_errors :=
            [(''catalogs/broken.json'', LoadError ''Expecting value: line 1 column 1 (char 0)'')]\<rparr>\<rparr>
   \<and> (''catalogs/broken.json'', LoadError ''Expecting value: line 1 column 1 (char 0)'')
       \<in> set (r_errors (res_json (test_json_catalogs init_tester [ex_json_broken_file, ex_json_file])))
   \<and> r_count (res_json (test_json_catalogs init_tester [ex_json_broken_file, ex_json_file])) = 2"
proof -
  have h1: "(0::nat) < length [ex_json_broken_file, ex_json_file]" by simp
  have h2: "(0::nat) < 10" by simp
  have h3: "f_content ([ex_json_broken_file, ex_json_file] ! 0)
       = Inl (LoadError ''Expecting value: line 1 column 1 (char 0)'')"
    by (simp add: ex_json_broken_file_def)
  have p: "f_path ex_json_broken_file = ''catalogs/broken.json''"
    by (simp add: ex_json_broken_file_def)
  have i: "r_errors (res_json init_tester) = []"
    by (simp add: init_tester_def init_results_def)
  have n: "r_count (res_json (test_json_catalogs init_tester [ex_json_broken_file, ex_json_file])) = 2"
    by code_simp
  note t = C4_unreadable_file_is_one_error [OF h1 h2 h3, of init_tester init_tester]
  have c1: "test_json_file init_tester ex_json_broken_file
       = init_tester\<lparr>res_json := (res_json init_tester)\<lparr>r_errors :=
            [(''catalogs/broken.json'', LoadError ''Expecting value: line 1 column 1 (char 0)'')]\<rparr>\<rparr>"
    using t [THEN conjunct1] by (simp add: p i)
  have c2: "(''catalogs/broken.json'', LoadError ''Expecting value: line 1 column 1 (char 0)'')
       \<in> set (r_errors (res_json (test_json_catalogs init_tester [ex_json_broken_file, ex_json_file])))"
    using t [THEN conjunct2, THEN conjunct2] by (simp add: p)
  show ?thesis
    using h1 h2 h3 c1 c2 n by (intro conjI)
qed

subsection \<open>Field aliases\<close>

text \<open>
  \<^verbatim>\<open>measure_csv_extraction\<close> follows the specification's rule for the CSV aliases of name
  and vendor, and so does the vendor of \<^verbatim>\<open>test_csv_catalogs\<close>: whenever some alias is
  present with a non-empty value, the first such value is the result.
\<close>

lemma row_get_nonempty_default:
  "nonempty_text (row_get row k PNone) \<Longrightarrow> row_get row k d = row_get row k PNone"
  by (auto simp: row_get_def nonempty_text_def split: option.splits)

lemma measure_csv_name_refines:
  assumes "spec_resolve [ustr ''Product Name'', ustr ''Product'', ustr ''Service''] (dict_row h r) = Some v"
  shows "measure_csv_name (dict_row h r) = v"
proof -
  let ?row = "dict_row h r"
  have a: "truthy (row_get ?row k PNone) = nonempty_text (row_get ?row k PNone)" for k
    by (intro plain_truthy row_get_plain plain_cell_simps)
  have b: "\<not> nonempty_text (row_get ?row (ustr ''Service'') PNone) \<Longrightarrow>
           \<not> nonempty_text (row_get ?row (ustr ''Service'') (PStr []))"
    by (auto simp: row_get_def nonempty_text_def split: option.splits)
  show ?thesis
    using assms row_get_nonempty_default[of ?row "ustr ''Service''" "PStr []"]
    by (auto simp: measure_csv_name_def py_or_def a split: if_splits)
qed

lemma measure_csv_vendor_refines:
  assumes "spec_resolve [ustr ''Vendor'', ustr ''Provider''] (dict_row h r) = Some v"
  shows "measure_csv_vendor (dict_row h r) = v"
proof -
  let ?row = "dict_row h r"
  have a: "truthy (row_get ?row k PNone) = nonempty_text (row_get ?row k PNone)" for k
    by (intro plain_truthy row_get_plain plain_cell_simps)
  show ?thesis
    using assms row_get_nonempty_default[of ?row "ustr ''Provider''" "PStr []"]
    by (auto simp: measure_csv_vendor_def py_or_def a split: if_splits)
qed

lemma csv_vendor_refines:
  assumes "spec_resolve [ustr ''Vendor'', ustr ''Provider''] (dict_row h r) = Some v"
  shows "csv_vendor (dict_row h r) = v"
proof -
  let ?row = "dict_row h r"
  have a: "truthy (row_get ?row k PNone) = nonempty_text (row_get ?row k PNone)" for k
    by (intro plain_truthy row_get_plain plain_cell_simps)
  show ?thesis
    using assms by (auto simp: csv_vendor_def py_or_def a split: if_splits)
qed

text \<open>
  C6, at a row of the cloud-services CSV (columns \<^verbatim>\<open>Service\<close>, \<^verbatim>\<open>Provider\<close>, ...): by the
  rule of the claim the name is \<^verbatim>\<open>EC2 Instance\<close>, and \<^verbatim>\<open>measure_csv_extraction\<close> finds
  it; \<^verbatim>\<open>test_csv_catalogs\<close> does not try \<^verbatim>\<open>Service\<close> and names the product
  \<^verbatim>\<open>unknown\<close>.
\<close>

theorem C6_service_alias_not_tried:
  "spec_resolve [ustr ''Product Name'', ustr ''Product'', ustr ''Service''] ex_service_row
     = Some (PStr (ustr ''EC2 Instance''))
   \<and> measure_csv_name ex_service_row = PStr (ustr ''EC2 Instance'')
   \<and> csv_product_id ex_service_row = PStr (ustr ''unknown'')
   \<and> map p_name (r_products (res_csv (test_csv_file init_tester ex_service_file)))
       = [PStr (ustr ''unknown'')]"
  by code_simp

subsection \<open>PDF tables\<close>

text \<open>
  The count of \<^verbatim>\<open>measure_pdf_extraction\<close>: over the tables of more than one row, the rows
  after row 0 whose first cell is not empty.
\<close>

lemma count_rows_foldl:
  "foldl (\<lambda>n row. if row_has_first_cell row then n + 1 else n) a rows
     = a + length (filter row_has_first_cell rows)"
  by (induction rows arbitrary: a) auto

lemma measure_pdf_count_foldl:
  "foldl (\<lambda>product_count table.
              if length table > 1
              then foldl (\<lambda>n row. if row_has_first_cell row then n + 1 else n)
                         product_count (tl table)
              else product_count) a tables
     = a + (\<Sum>table\<leftarrow>tables. if length table > 1
                              then length (filter row_has_first_cell (tl table)) else 0)"
  by (induction tables arbitrary: a) (auto simp: count_rows_foldl)

lemma measure_pdf_count_eq:
  "measure_pdf_count tables
     = (\<Sum>table\<leftarrow>tables. if length table > 1
                          then length (filter row_has_first_cell (tl table)) else 0)"
  unfolding measure_pdf_count_def measure_pdf_count_foldl by simp

text \<open>
  On tables in which no data row has an empty second cell, \<^verbatim>\<open>test_pdf_catalogs\<close> does
  the same: it adds one product per row after row 0 with a non-empty first cell, raises
  the count by their number and records no error.
\<close>

lemma pdf_product_ok:
  "row_has_first_cell row \<Longrightarrow> second_cell_ok row \<Longrightarrow>
   \<exists>pr. pdf_product fname row = Inr pr \<and> hashable (p_id pr)"
  by (auto simp: row_has_first_cell_def second_cell_ok_def pdf_product_def
           split: list.splits option.splits)

lemma pdf_rows_loop_ok:
  "list_all second_cell_ok rows \<Longrightarrow>
   \<exists>st'. pdf_rows_loop fname rows (st, n)
            = (st', n + length (filter row_has_first_cell rows), None)
        \<and> length (r_products (res_pdf st'))
            = length (r_products (res_pdf st)) + length (filter row_has_first_cell rows)
        \<and> r_count (res_pdf st') = r_count (res_pdf st)
        \<and> r_errors (res_pdf st') = r_errors (res_pdf st)"
proof (induction rows arbitrary: st n)
  case Nil
  then show ?case by simp
next
  case (Cons row rows)
  then have ok: "second_cell_ok row" and rest: "list_all second_cell_ok rows" by simp_all
  show ?case
  proof (cases "row_has_first_cell row")
    case False
    with Cons.IH[OF rest, of st n] show ?thesis by simp
  next
    case True
    from pdf_product_ok[OF True ok] obtain pr where
      pr: "pdf_product fname row = Inr pr" and h: "hashable (p_id pr)" by blast
    let ?st1 = "(pdf_add_product st pr)\<lparr>dedup_map :=
                   add_dedup_map (dedup_map (pdf_add_product st pr)) (p_id pr) fname\<rparr>"
    from Cons.IH[OF rest, of ?st1 "n + 1"] obtain st' where
      "pdf_rows_loop fname rows (?st1, n + 1)
            = (st', n + 1 + length (filter row_has_first_cell rows), None)"
      "length (r_products (res_pdf st'))
            = length (r_products (res_pdf ?st1)) + length (filter row_has_first_cell rows)"
      "r_count (res_pdf st') = r_count (res_pdf ?st1)"
      "r_errors (res_pdf st') = r_errors (res_pdf ?st1)"
      by blast
    then show ?thesis
      using True by (simp add: pr h add_dedup_def pdf_add_product_def)
  qed
qed

lemma pdf_tables_loop_ok:
  "list_all (\<lambda>table. list_all second_cell_ok (tl table)) tables \<Longrightarrow>
   \<exists>st'. pdf_tables_loop fname tables (st, n)
            = (st', n + measure_pdf_count tables, None)
        \<and> length (r_products (res_pdf st'))
            = length (r_products (res_pdf st)) + measure_pdf_count tables
        \<and> r_count (res_pdf st') = r_count (res_pdf st)
        \<and> r_errors (res_pdf st') = r_errors (res_pdf st)"
proof (induction tables arbitrary: st n)
  case Nil
  then show ?case by (simp add: measure_pdf_count_eq)
next
  case (Cons table tables)
  then have ok: "list_all second_cell_ok (tl table)"
    and rest: "list_all (\<lambda>table. list_all second_cell_ok (tl table)) tables" by simp_all
  show ?case
  proof (cases "length table > 1")
    case False
    with Cons.IH[OF rest, of st n] show ?thesis by (simp add: measure_pdf_count_eq)
  next
    case True
    let ?k = "length (filter row_has_first_cell (tl table))"
    from pdf_rows_loop_ok[OF ok, of fname st n] obtain st1 where
      r: "pdf_rows_loop fname (tl table) (st, n) = (st1, n + ?k, None)"
      and r1: "length (r_products (res_pdf st1)) = length (r_products (res_pdf st)) + ?k"
      and r2: "r_count (res_pdf st1) = r_count (res_pdf st)"
      and r3: "r_errors (res_pdf st1) = r_errors (res_pdf st)"
      by blast
    from Cons.IH[OF rest, of st1 "n + ?k"] obtain st' where
      "pdf_tables_loop fname tables (st1, n + ?k) = (st', n + ?k + measure_pdf_count tables, None)"
      "length (r_products (res_pdf st'))
         = length (r_products (res_pdf st1)) + measure_pdf_count tables"
      "r_count (res_pdf st') = r_count (res_pdf st1)"
      "r_errors (res_pdf st') = r_errors (res_pdf st1)"
      by blast
    then show ?thesis
      using True by (simp add: r r1 r2 r3 measure_pdf_count_eq)
  qed
qed

lemma test_pdf_file_ok:
  assumes "f_content f = Inr pages"
      and "list_all (\<lambda>table. list_all second_cell_ok (tl table)) (collect_tables pages)"
  shows "r_count (res_pdf (test_pdf_file st f))
           = r_count (res_pdf st) + measure_pdf_count (collect_tables pages)
       \<and> length (r_products (res_pdf (test_pdf_file st f)))
           = length (r_products (res_pdf st)) + measure_pdf_count (collect_tables pages)
       \<and> r_errors (res_pdf (test_pdf_file st f)) = r_errors (res_pdf st)"
proof -
  from pdf_tables_loop_ok[OF assms(2), of "f_name f" st 0] obtain st' where
    "pdf_tables_loop (f_name f) (collect_tables pages) (st, 0)
       = (st', measure_pdf_count (collect_tables pages), None)"
    "length (r_products (res_pdf st'))
       = length (r_products (res_pdf st)) + measure_pdf_count (collect_tables pages)"
    "r_count (res_pdf st') = r_count (res_pdf st)"
    "r_errors (res_pdf st') = r_errors (res_pdf st)"
    by auto
  then show ?thesis
    using assms(1) by (simp add: test_pdf_file_def pdf_add_count_def pdf_prints_ok)
qed

text \<open>
  C7, at a table whose second data row has a non-empty first cell and an empty
  (\<^verbatim>\<open>None\<close>) second cell: \<^verbatim>\<open>measure_pdf_extraction\<close> counts all three data rows, while
  \<^verbatim>\<open>test_pdf_catalogs\<close> raises on \<^verbatim>\<open>row[1].strip()\<close>, keeps the one product appended
  before, leaves the count at 0 and records the file as an error.
\<close>

theorem C7_empty_second_cell_ends_the_file:
  "row_has_first_cell [Some (ustr ''Cloud Run''), None, Some (ustr ''Pay-as-you-go'')]
   \<and> measure_pdf_count ex_pdf_tables = 3
   \<and> map p_name (r_products (res_pdf (test_pdf_file init_tester ex_pdf_file)))
       = [PStr (ustr ''EC2 Instance'')]
   \<and> r_count (res_pdf (test_pdf_file init_tester ex_pdf_file)) = 0
   \<and> r_errors (res_pdf (test_pdf_file init_tester ex_pdf_file))
       = [(''catalogs/pdf/Cloud_Services_Pricing_2026.pdf'', AttributeError)]"
  by code_simp

subsection \<open>The cache\<close>

text \<open>
  C5. Two calls of \<^verbatim>\<open>get_or_build\<close> with the same fingerprint, the first one a miss whose
  build succeeds with \<open>r\<close> at time \<open>t1\<close>, the second at a time \<open>t2\<close> before the entry
  expires: both return \<open>r\<close>, the first with \<open>was_hit = False\<close>, the second with
  \<open>was_hit = True\<close>, and the second leaves the cache and its count of build executions
  as the first left them, whatever build function it is handed.
\<close>

theorem C5_get_or_build_twice:
  assumes "live_entry c t1 fp = None"
      and "build_fn () = Inr r"
      and "t1 \<le> t2"
      and "t2 < t1 + ttl_seconds"
  shows "snd (get_or_build c t1 fp build_fn) = Inr (r, False)
       \<and> snd (get_or_build (fst (get_or_build c t1 fp build_fn)) t2 fp build_fn') = Inr (r, True)
       \<and> fst (get_or_build (fst (get_or_build c t1 fp build_fn)) t2 fp build_fn')
           = fst (get_or_build c t1 fp build_fn)
       \<and> build_calls (fst (get_or_build c t1 fp build_fn)) = build_calls c + 1"
  using assms by (simp add: get_or_build_def live_entry_def)

theorem C5_get_or_build_twice_witness:
  "live_entry \<lparr>entries = (\<lambda>k. None), build_calls = 0\<rparr> 1000 ''fp-01''
       = (None :: string list cache_entry option)
   \<and> (\<lambda>u. Inr [''Cloud SQL'']) () = (Inr [''Cloud SQL''] :: string + string list)
   \<and> (1000::nat) \<le> 4600
   \<and> (4600::nat) < 1000 + ttl_seconds
   \<and> snd (get_or_build \<lparr>entries = (\<lambda>k. None), build_calls = 0\<rparr> 1000 ''fp-01''
            (\<lambda>u. Inr [''Cloud SQL''] :: string + string list)) = Inr ([''Cloud SQL''], False)
   \<and> snd (get_or_build
            (fst (get_or_build \<lparr>entries = (\<lambda>k. None), build_calls = 0\<rparr> 1000 ''fp-01''
                    (\<lambda>u. Inr [''Cloud SQL''] :: string + string list)))
            4600 ''fp-01'' (\<lambda>u. Inl ''build failed'')) = Inr ([''Cloud SQL''], True)"
proof -
  have h1: "live_entry \<lparr>entries = (\<lambda>k. None), build_calls = 0\<rparr> 1000 ''fp-01''
              = (None :: string list cache_entry option)"
    by (simp add: live_entry_def)
  have h2: "(\<lambda>u. Inr [''Cloud SQL'']) () = (Inr [''Cloud SQL''] :: string + string list)"
    by simp
  have h3: "(1000::nat) \<le> 4600" by simp
  have h4: "(4600::nat) < 1000 + ttl_seconds" by (simp add: ttl_seconds_def)
  show ?thesis
    using C5_get_or_build_twice [OF h1 h2 h3 h4, of "\<lambda>u. Inl ''build failed''"] h1 h4
    by simp
qed

subsection \<open>Price parsing\<close>

lemma parse_decimal_no_digit: "\<forall>c\<in>set s. \<not> is_digit c \<Longrightarrow> parse_decimal s = None"
  by (cases "filter (\<lambda>c. c \<noteq> CHR '','') s")
     (auto simp: parse_decimal_def Let_def dest: filter_eq_ConsD)

text \<open>
  C9. The price text \<^verbatim>\<open>$15-100\<close> parses to a range with minimum 15, maximum 100 and the
  one currency USD, not to a single amount; and a text without any digit, such as
  \<^verbatim>\<open>Pay-as-you-go\<close> or \<^verbatim>\<open>Custom pricing\<close>, is kept verbatim under the \<open>Unpriced\<close> tag.
\<close>

theorem C9_price_range_and_sentinels:
  "parse_price ''$15-100'' = Range (Decimal 15 0) (Decimal 100 0) (Some USD)
   \<and> (filter is_digit s = [] \<longrightarrow> parse_price s = Unpriced s)"
proof
  show "parse_price ''$15-100'' = Range (Decimal 15 0) (Decimal 100 0) (Some USD)"
    by (simp add: parse_price_def split_currency_def parse_decimal_def is_digit_def
                  digits_value_def)
next
  show "filter is_digit s = [] \<longrightarrow> parse_price s = Unpriced s"
  proof
    assume "filter is_digit s = []"
    then have nd: "\<forall>c\<in>set s. \<not> is_digit c"
      by (simp add: filter_empty_conv)
    obtain cur body where sc: "split_currency s = (cur, body)"
      by (cases "split_currency s")
    have sub: "set body \<subseteq> set s"
      using sc by (auto simp: split_currency_def split: list.splits if_splits)
    have b: "parse_decimal body = None"
      using nd sub by (intro parse_decimal_no_digit) blast
    have "set (takeWhile (\<lambda>c. c \<noteq> CHR ''-'') body) \<subseteq> set body"
      by (auto dest: set_takeWhileD)
    then have l: "parse_decimal (takeWhile (\<lambda>c. c \<noteq> CHR ''-'') body) = None"
      using nd sub by (intro parse_decimal_no_digit) blast
    show "parse_price s = Unpriced s"
      by (simp add: parse_price_def sc b l)
  qed
qed

theorem C9_price_sentinels_witness:
  "filter is_digit ''Pay-as-you-go'' = []
   \<and> parse_price ''Pay-as-you-go'' = Unpriced ''Pay-as-you-go''
   \<and> filter is_digit ''Custom pricing'' = []
   \<and> parse_price ''Custom pricing'' = Unpriced ''Custom pricing''"
proof -
  have h1: "filter is_digit ''Pay-as-you-go'' = []" by (simp add: is_digit_def)
  have h2: "filter is_digit ''Custom pricing'' = []" by (simp add: is_digit_def)
  show ?thesis
    using C9_price_range_and_sentinels [of "''Pay-as-you-go''"]
          C9_price_range_and_sentinels [of "''Custom pricing''"] h1 h2
    by blast
qed

end
